theory Spec2Isabelle
  imports Complex_Main "HOL-Library.Sublist" "HOL-Library.Word"
begin

section \<open>Errors\<close>

text \<open>
  Go's \<^verbatim>\<open>error\<close> values as the package builds them: \<^verbatim>\<open>errors.New(s)\<close> and a
  \<^verbatim>\<open>fmt.Errorf\<close> without \<^verbatim>\<open>%w\<close> are \<open>ErrorString s\<close>; \<^verbatim>\<open>fmt.Errorf\<close> with \<^verbatim>\<open>%w\<close> is
  \<open>WrapError msg e\<close>, the formatted message together with the wrapped error.
  A nil error is \<open>None\<close> of \<open>error option\<close>.
\<close>

datatype error = ErrorString string | WrapError string error

fun Error :: "error \<Rightarrow> string" where
  "Error (ErrorString s) = s"
| "Error (WrapError msg e) = msg"

text \<open>\<^verbatim>\<open>errors.Is(e, target)\<close>: \<open>e\<close> or an error it wraps is \<open>target\<close>.\<close>

fun errors_Is :: "error \<Rightarrow> error \<Rightarrow> bool" where
  "errors_Is (ErrorString s) target = (ErrorString s = target)"
| "errors_Is (WrapError msg e) target = (WrapError msg e = target \<or> errors_Is e target)"

text \<open>\<^verbatim>\<open>strings.Join(elems, sep)\<close>.\<close>

fun strings_Join :: "string list \<Rightarrow> string \<Rightarrow> string" where
  "strings_Join [] sep = []"
| "strings_Join [x] sep = x"
| "strings_Join (x # y # ys) sep = x @ sep @ strings_Join (y # ys) sep"

section \<open>Codec selector (codecselector.go)\<close>

text \<open>
  A \<^verbatim>\<open>video.Reader\<close> and a \<^verbatim>\<open>codec.ReadCloser\<close> are objects of packages outside this
  development; the model names them by numbers. \<^verbatim>\<open>prop.Media\<close> is the type variable \<open>'p\<close>.
  Of a \<^verbatim>\<open>codec.VideoEncoderBuilder\<close> the selector uses \<^verbatim>\<open>RTPCodec().Name\<close> and
  \<^verbatim>\<open>BuildVideoEncoder\<close>, which returns the encoded reader or an error.
\<close>

type_synonym handler = nat
type_synonym PeerConnection = nat
type_synonym Context = nat
type_synonym DriverID = nat
type_synonym Reader = nat
type_synonym ReadCloser = nat

record 'p VideoEncoderBuilder =
  RTPCodecName :: string
  BuildVideoEncoder :: "Reader \<Rightarrow> 'p \<Rightarrow> error + ReadCloser"

record 'p CodecSelector =
  videoEncoders :: "'p VideoEncoderBuilder list"

definition newline :: string where
  "newline = [CHR 0x0A]"

text \<open>\<^verbatim>\<open>fmt.Sprintf("%s: %s", name, err)\<close>; a nil error under \<^verbatim>\<open>%s\<close> prints as \<^verbatim>\<open>%!s(<nil>)\<close>.\<close>

definition fmtError :: "error option \<Rightarrow> string" where
  "fmtError e = (case e of None \<Rightarrow> ''%!s(<nil>)'' | Some e' \<Rightarrow> Error e')"

definition fmtReason :: "string \<Rightarrow> error option \<Rightarrow> string" where
  "fmtReason name e = name @ '': '' @ fmtError e"

text \<open>The local variables of \<^verbatim>\<open>selectVideoCodec\<close> that the two loops assign.\<close>

record 'p codecVars =
  selectedEncoder :: "'p VideoEncoderBuilder option"
  encodedReader :: "ReadCloser option"
  cerr :: "error option"
  errReasons :: "string list"

text \<open>
  The inner loop over \<^verbatim>\<open>selector.videoEncoders\<close> for one wanted name. The boolean is
  \<open>True\<close> when the loop left by \<^verbatim>\<open>break outer\<close>. The append to \<^verbatim>\<open>errReasons\<close> is after the
  \<^verbatim>\<open>if\<close> on the name, so it also runs for an encoder of another name, with whatever
  \<^verbatim>\<open>err\<close> holds then.
\<close>

fun encoderLoop ::
  "string \<Rightarrow> Reader \<Rightarrow> 'p \<Rightarrow> 'p VideoEncoderBuilder list \<Rightarrow> 'p codecVars \<Rightarrow> bool \<times> 'p codecVars"
where
  "encoderLoop name reader currentProp [] vars = (False, vars)"
| "encoderLoop name reader currentProp (encoder # rest) vars =
     (if RTPCodecName encoder = name then
        (case BuildVideoEncoder encoder reader currentProp of
           Inr r \<Rightarrow>
             (True, vars\<lparr>encodedReader := Some r, cerr := None, selectedEncoder := Some encoder\<rparr>)
         | Inl e \<Rightarrow>
             encoderLoop name reader currentProp rest
               (vars\<lparr>encodedReader := None, cerr := Some e,
                     errReasons := errReasons vars @ [fmtReason (RTPCodecName encoder) (Some e)]\<rparr>))
      else
        encoderLoop name reader currentProp rest
          (vars\<lparr>errReasons := errReasons vars @ [fmtReason (RTPCodecName encoder) (cerr vars)]\<rparr>))"

fun wantLoop ::
  "string list \<Rightarrow> Reader \<Rightarrow> 'p \<Rightarrow> 'p VideoEncoderBuilder list \<Rightarrow> 'p codecVars \<Rightarrow> 'p codecVars"
where
  "wantLoop [] reader currentProp encoders vars = vars"
| "wantLoop (name # rest) reader currentProp encoders vars =
     (case encoderLoop name reader currentProp encoders vars of
        (True, vars') \<Rightarrow> vars'
      | (False, vars') \<Rightarrow> wantLoop rest reader currentProp encoders vars')"

text \<open>
  \<open>selectVideoCodec\<close>. \<open>wantCodecs\<close> is the list of the wanted codecs' names, the only
  field read. \<open>metaRead\<close> is the outcome of the probe \<^verbatim>\<open>metaReader.Read()\<close>: the error, or
  the value \<^verbatim>\<open>currentProp\<close> holds after it; \<open>reader\<close> is the second \<^verbatim>\<open>track.NewReader\<close>.
  Both come from the broadcaster, which is outside this development; what a failing probe
  does to the Track is in \<open>wrappedReader_Read\<close>, with \<open>VideoTrack_Bind\<close>.
\<close>

definition selectVideoCodec ::
  "'p CodecSelector \<Rightarrow> string list \<Rightarrow> error + 'p \<Rightarrow> Reader \<Rightarrow> error + ReadCloser option"
where
  "selectVideoCodec selector wantCodecs metaRead reader =
     (case metaRead of
        Inl e \<Rightarrow> Inl e
      | Inr currentProp \<Rightarrow>
          (let vars = wantLoop wantCodecs reader currentProp (videoEncoders selector)
                        \<lparr>selectedEncoder = None, encodedReader = None, cerr = None, errReasons = []\<rparr>
           in case selectedEncoder vars of
                None \<Rightarrow> Inl (ErrorString (strings_Join (errReasons vars) (newline @ newline)))
              | Some encoder \<Rightarrow> Inr (encodedReader vars)))"

text \<open>
  What the negotiation is specified to do, in the specification's words: the wanted names in
  order, for each the local builders advertising it, the first build that succeeds.
\<close>

definition attemptsInOrder :: "string list \<Rightarrow> 'p VideoEncoderBuilder list \<Rightarrow> 'p VideoEncoderBuilder list" where
  "attemptsInOrder wantCodecs encoders =
     concat (map (\<lambda>name. filter (\<lambda>encoder. RTPCodecName encoder = name) encoders) wantCodecs)"

fun firstSuccessfulBuild :: "Reader \<Rightarrow> 'p \<Rightarrow> 'p VideoEncoderBuilder list \<Rightarrow> ReadCloser option" where
  "firstSuccessfulBuild reader currentProp [] = None"
| "firstSuccessfulBuild reader currentProp (encoder # rest) =
     (case BuildVideoEncoder encoder reader currentProp of
        Inr r \<Rightarrow> Some r
      | Inl e \<Rightarrow> firstSuccessfulBuild reader currentProp rest)"

text \<open>
  The specified diagnostics: one entry for each attempted build that failed, its codec name
  with the reason of that attempt.
\<close>

fun failedAttempts :: "Reader \<Rightarrow> 'p \<Rightarrow> 'p VideoEncoderBuilder list \<Rightarrow> string list" where
  "failedAttempts reader currentProp [] = []"
| "failedAttempts reader currentProp (encoder # rest) =
     (case BuildVideoEncoder encoder reader currentProp of
        Inr r \<Rightarrow> failedAttempts reader currentProp rest
      | Inl e \<Rightarrow> fmtReason (RTPCodecName encoder) (Some e) # failedAttempts reader currentProp rest)"

section \<open>Track: error latch and one-shot handler (track.go)\<close>

text \<open>
  Of the embedded \<^verbatim>\<open>Source\<close> the model keeps the driver the track was built on.
  A handler is a Go closure \<^verbatim>\<open>func(error)\<close>; the model names it by a number and records
  every invocation, with the error passed, in the ghost field \<open>invoked\<close>.
  \<open>endOnce\<close> is the \<^verbatim>\<open>sync.Once\<close>: \<open>True\<close> once \<^verbatim>\<open>Do\<close> has run its function.
  The mutex is not modelled: every method runs to completion before the next starts.
\<close>

datatype MediaDeviceType = VideoInput | AudioInput

record 'p baseTrack =
  Source :: DriverID
  err :: "error option"
  onErrorHandler :: "handler option"
  endOnce :: bool
  kind :: MediaDeviceType
  selector :: "'p CodecSelector"
  activeTracks :: "PeerConnection \<rightharpoonup> Context"
  invoked :: "(handler \<times> error) list"

definition newBaseTrack :: "DriverID \<Rightarrow> MediaDeviceType \<Rightarrow> 'p CodecSelector \<Rightarrow> 'p baseTrack" where
  "newBaseTrack source k sel =
     \<lparr>Source = source, err = None, onErrorHandler = None, endOnce = False, kind = k,
      selector = sel, activeTracks = Map.empty, invoked = []\<rparr>"

definition Kind :: "'p baseTrack \<Rightarrow> MediaDeviceType" where
  "Kind track = kind track"

definition callHandler :: "handler \<Rightarrow> error \<Rightarrow> 'p baseTrack \<Rightarrow> 'p baseTrack" where
  "callHandler h e track = track\<lparr>invoked := invoked track @ [(h, e)]\<rparr>"

definition endOnce_Do :: "('p baseTrack \<Rightarrow> 'p baseTrack) \<Rightarrow> 'p baseTrack \<Rightarrow> 'p baseTrack" where
  "endOnce_Do f track = (if endOnce track then track else f (track\<lparr>endOnce := True\<rparr>))"

definition OnEnded :: "handler option \<Rightarrow> 'p baseTrack \<Rightarrow> 'p baseTrack" where
  "OnEnded h track =
     (let track1 = track\<lparr>onErrorHandler := h\<rparr>;
          e = err track1
      in case e of
           None \<Rightarrow> track1
         | Some e' \<Rightarrow>
             (case h of
                None \<Rightarrow> track1
              | Some h' \<Rightarrow> endOnce_Do (callHandler h' e') track1))"

text \<open>
  \<open>onError\<close> is only ever called with a non-nil error (both callers test
  \<^verbatim>\<open>err != nil\<close> first), so its argument is an \<open>error\<close>, not an \<open>error option\<close>.
\<close>

definition onError :: "error \<Rightarrow> 'p baseTrack \<Rightarrow> 'p baseTrack" where
  "onError e track =
     (let track1 = track\<lparr>err := Some e\<rparr>;
          h = onErrorHandler track1
      in case h of
           None \<Rightarrow> track1
         | Some h' \<Rightarrow> endOnce_Do (callHandler h' e) track1)"

text \<open>A Track's lifetime: the calls made on it, in order.\<close>

datatype trackCall = CallOnEnded "handler option" | CallOnError error

fun trackStep :: "'p baseTrack \<Rightarrow> trackCall \<Rightarrow> 'p baseTrack" where
  "trackStep track (CallOnEnded h) = OnEnded h track"
| "trackStep track (CallOnError e) = onError e track"

definition trackRun :: "trackCall list \<Rightarrow> 'p baseTrack \<Rightarrow> 'p baseTrack" where
  "trackRun cs track = foldl trackStep track cs"

text \<open>The error of the last \<open>CallOnError\<close> in a list of calls, if there is one.\<close>

fun lastError :: "trackCall list \<Rightarrow> error option \<Rightarrow> error option" where
  "lastError [] acc = acc"
| "lastError (CallOnEnded h # cs) acc = lastError cs acc"
| "lastError (CallOnError e # cs) acc = lastError cs (Some e)"

text \<open>The invariant that ties the one-shot guard to the latch and the handler.\<close>

definition trackInv :: "'p baseTrack \<Rightarrow> bool" where
  "trackInv track \<longleftrightarrow>
     length (invoked track) \<le> 1 \<and>
     (endOnce track \<longleftrightarrow> invoked track \<noteq> []) \<and>
     (endOnce track \<longrightarrow> err track \<noteq> None) \<and>
     (err track \<noteq> None \<and> onErrorHandler track \<noteq> None \<longrightarrow> endOnce track)"

section \<open>Output binder: the drain loop (rtptracker.go)\<close>







section \<open>Track: bind and unbind (track.go)\<close>

text \<open>
  Of \<^verbatim>\<open>video.Broadcaster\<close>, which is outside this development, a \<open>VideoTrack\<close> keeps what
  \<^verbatim>\<open>selectVideoCodec\<close> gets from it: the outcome of the probe read and the reader for the
  encoder. \<open>GetRegisteredRTPCodecs\<close> gives the names of the video codecs registered on a
  peer connection.

  The probe reads through the reader that \<^verbatim>\<open>newVideoTrackFromReader\<close> wraps around the
  source: when the read fails the wrapper calls \<^verbatim>\<open>base.onError\<close> with the error before
  it returns it, so a failing probe latches the error on the Track. That is
  \<open>wrappedReader_Read\<close>.
\<close>

record LocalTrackContext =
  PeerConnection :: PeerConnection

record 'p Broadcaster =
  probeRead :: "error + 'p"
  rawReader :: Reader

record 'p VideoTrack =
  base :: "'p baseTrack"
  Broadcaster :: "'p Broadcaster"

definition bind ::
  "LocalTrackContext \<Rightarrow> ReadCloser option \<Rightarrow> string \<Rightarrow> 'p baseTrack \<Rightarrow> error option \<times> 'p baseTrack"
where
  "bind ctx encReader selectedCodec track = (None, track)"

definition unbind :: "LocalTrackContext \<Rightarrow> 'p baseTrack \<Rightarrow> error option \<times> 'p baseTrack" where
  "unbind ctx track = (None, track)"

definition wrappedReader_Read :: "'p VideoTrack \<Rightarrow> (error + 'p) \<times> 'p VideoTrack" where
  "wrappedReader_Read track =
     (case probeRead (Broadcaster track) of
        Inl e \<Rightarrow> (Inl e, track\<lparr>base := onError e (base track)\<rparr>)
      | Inr p \<Rightarrow> (Inr p, track))"

definition VideoTrack_Bind ::
  "(PeerConnection \<Rightarrow> string list) \<Rightarrow> LocalTrackContext \<Rightarrow> 'p VideoTrack \<Rightarrow> error option \<times> 'p VideoTrack"
where
  "VideoTrack_Bind GetRegisteredRTPCodecs ctx track =
     (let wantCodecs = GetRegisteredRTPCodecs (PeerConnection ctx)
      in case wrappedReader_Read track of
           (metaRead, track') \<Rightarrow>
             (case selectVideoCodec (selector (base track)) wantCodecs metaRead
                     (rawReader (Broadcaster track)) of
                Inl e \<Rightarrow> (Some e, track')
              | Inr encReader \<Rightarrow> (None, track')))"

section \<open>Drivers and the driver manager\<close>

text \<open>
  Modelled from the spec: the driver package is not among the sources. A driver has an
  open/closed status, a static priority, a device kind and the list of media properties it
  reports; \<^verbatim>\<open>Open\<close> may fail (then the driver stays as it was), \<^verbatim>\<open>Close\<close> closes. The
  recorder interfaces a driver implements are the two flags; \<open>recordErr\<close> is what
  \<^verbatim>\<open>VideoRecord\<close> or \<^verbatim>\<open>AudioRecord\<close> fails with, if it fails. The priority is a number,
  a \<open>real\<close> here; the selection converts it to \<^verbatim>\<open>float64\<close>.

  The world is the manager's drivers in the order \<^verbatim>\<open>Query\<close> lists them, their current
  records, and two ghost logs: every \<^verbatim>\<open>Open\<close> and \<^verbatim>\<open>Close\<close> call made, and every Track
  constructed, in order.
\<close>

datatype State = StateClosed | StateOpened

datatype DeviceType = Camera | Microphone | Screen

record 'p Driver =
  status :: State
  openErr :: "error option"
  Properties :: "'p list"
  Priority :: real
  DeviceType :: DeviceType
  isVideoRecorder :: bool
  isAudioRecorder :: bool
  recordErr :: "error option"

datatype driverCall = OpenCall DriverID | CloseCall DriverID

record 'p world =
  registered :: "DriverID list"
  drv :: "DriverID \<Rightarrow> 'p Driver"
  driverCalls :: "driverCall list"
  tracks :: "'p baseTrack list"

definition setStatus :: "DriverID \<Rightarrow> State \<Rightarrow> 'p world \<Rightarrow> 'p world" where
  "setStatus d st w = w\<lparr>drv := (drv w)(d := (drv w d)\<lparr>status := st\<rparr>)\<rparr>"

definition logCall :: "driverCall \<Rightarrow> 'p world \<Rightarrow> 'p world" where
  "logCall c w = w\<lparr>driverCalls := driverCalls w @ [c]\<rparr>"

text \<open>
  Modelled from the spec: \<^verbatim>\<open>Open\<close> of a driver, which is not among the sources. It fails
  with the driver's \<open>openErr\<close>, leaving the driver as it was, or opens the driver.
\<close>

definition Open :: "DriverID \<Rightarrow> 'p world \<Rightarrow> error option \<times> 'p world" where
  "Open d w =
     (case openErr (drv w d) of
        Some e \<Rightarrow> (Some e, logCall (OpenCall d) w)
      | None \<Rightarrow> (None, setStatus d StateOpened (logCall (OpenCall d) w)))"

text \<open>
  Modelled from the spec: \<^verbatim>\<open>Close\<close> of a driver, which is not among the sources. It closes
  the driver. Every caller discards the error it returns, so the model returns the world
  only.
\<close>

definition Close :: "DriverID \<Rightarrow> 'p world \<Rightarrow> 'p world" where
  "Close d w = setStatus d StateClosed (logCall (CloseCall d) w)"

text \<open>
  Modelled from the spec: the filters of the driver package and the manager's \<^verbatim>\<open>Query\<close>,
  which are not among the sources. A filter is a predicate on drivers; \<^verbatim>\<open>Query\<close> lists the
  registered drivers that match.
\<close>

type_synonym 'p FilterFn = "'p Driver \<Rightarrow> bool"

definition FilterVideoRecorder :: "'p FilterFn" where
  "FilterVideoRecorder d = isVideoRecorder d"

definition FilterAudioRecorder :: "'p FilterFn" where
  "FilterAudioRecorder d = isAudioRecorder d"

definition FilterDeviceType :: "DeviceType \<Rightarrow> 'p FilterFn" where
  "FilterDeviceType t d = (DeviceType d = t)"

definition FilterNot :: "'p FilterFn \<Rightarrow> 'p FilterFn" where
  "FilterNot f d = (\<not> f d)"

definition FilterAnd :: "'p FilterFn \<Rightarrow> 'p FilterFn \<Rightarrow> 'p FilterFn" where
  "FilterAnd f g d = (f d \<and> g d)"

definition Query :: "'p FilterFn \<Rightarrow> 'p world \<Rightarrow> DriverID list" where
  "Query f w = filter (\<lambda>d. f (drv w d)) (registered w)"

section \<open>Selection of the best driver (mediadevices.go)\<close>

text \<open>
  The Go map \<^verbatim>\<open>map[driver.Driver][]prop.Media\<close> is an association list with one entry for
  each key. A \<^verbatim>\<open>range\<close> over a map visits the entries in an order the language leaves
  open; the two loops over \<^verbatim>\<open>driverProperties\<close> take their orders from \<open>rangeBest\<close> and
  \<open>rangeFound\<close> of the environment.
\<close>

type_synonym 'p driverProps = "(DriverID \<times> 'p list) list"

fun mapAssign :: "DriverID \<Rightarrow> 'p list \<Rightarrow> 'p driverProps \<Rightarrow> 'p driverProps" where
  "mapAssign d v [] = [(d, v)]"
| "mapAssign d v ((d', v') # m) = (if d' = d then (d, v) # m else (d', v') # mapAssign d v m)"

fun queryLoop ::
  "DriverID list \<Rightarrow> 'p driverProps \<Rightarrow> DriverID list \<Rightarrow> 'p world \<Rightarrow> 'p driverProps \<times> DriverID list \<times> 'p world"
where
  "queryLoop [] m needToClose w = (m, needToClose, w)"
| "queryLoop (d # ds) m needToClose w =
     (if status (drv w d) = StateClosed then
        (case Open d w of
           (Some e, w') \<Rightarrow> queryLoop ds m needToClose w'
         | (None, w') \<Rightarrow>
             queryLoop ds (mapAssign d (Properties (drv w' d)) m) (needToClose @ [d]) w')
      else queryLoop ds (mapAssign d (Properties (drv w d)) m) needToClose w)"

definition queryDriverProperties :: "'p FilterFn \<Rightarrow> 'p world \<Rightarrow> 'p driverProps \<times> 'p world" where
  "queryDriverProperties f w =
     (case queryLoop (Query f w) [] [] w of
        (m, needToClose, w') \<Rightarrow> (m, fold Close needToClose w'))"

text \<open>
  \<^verbatim>\<open>MediaTrackConstraints\<close> embeds \<^verbatim>\<open>prop.MediaConstraints\<close> (the type variable \<open>'mc\<close>) and
  holds the selected media.
\<close>

record ('mc, 'p) MediaTrackConstraints =
  MediaConstraints :: 'mc
  Enabled :: bool
  selectedMedia :: 'p

text \<open>
  \<^verbatim>\<open>float64\<close>: the numbers, the two infinities and NaN. The comparisons are those of
  IEEE 754: every comparison with NaN is false. A subtraction of two numbers is the exact
  difference rounded to \<^verbatim>\<open>float64\<close> by \<open>rnd\<close>, which may give an infinity; the language
  fixes the rounding (to nearest), the model leaves it a parameter, so that what is proved
  holds for every rounding.
\<close>

datatype float64 = Finite real | PosInf | NegInf | NaN

fun float64_less :: "float64 \<Rightarrow> float64 \<Rightarrow> bool" where
  "float64_less (Finite x) (Finite y) = (x < y)"
| "float64_less (Finite x) PosInf = True"
| "float64_less NegInf (Finite y) = True"
| "float64_less NegInf PosInf = True"
| "float64_less a b = False"

fun float64_le :: "float64 \<Rightarrow> float64 \<Rightarrow> bool" where
  "float64_le (Finite x) (Finite y) = (x \<le> y)"
| "float64_le (Finite x) PosInf = True"
| "float64_le NegInf (Finite y) = True"
| "float64_le NegInf PosInf = True"
| "float64_le NegInf NegInf = True"
| "float64_le PosInf PosInf = True"
| "float64_le a b = False"

fun float64_sub :: "(real \<Rightarrow> float64) \<Rightarrow> float64 \<Rightarrow> float64 \<Rightarrow> float64" where
  "float64_sub rnd (Finite x) (Finite y) = rnd (x - y)"
| "float64_sub rnd NaN b = NaN"
| "float64_sub rnd a NaN = NaN"
| "float64_sub rnd PosInf PosInf = NaN"
| "float64_sub rnd NegInf NegInf = NaN"
| "float64_sub rnd PosInf b = PosInf"
| "float64_sub rnd NegInf b = NegInf"
| "float64_sub rnd (Finite x) PosInf = NegInf"
| "float64_sub rnd (Finite x) NegInf = PosInf"

text \<open>
  Modelled from the spec: the packages this file calls that are not among the sources.
  \<open>FitnessDistance\<close> is \<^verbatim>\<open>MediaConstraints.FitnessDistance\<close>: the boolean says whether every
  required attribute is satisfied, the \<^verbatim>\<open>float64\<close> is the distance.
  \<open>MergeConstraints\<close> and \<open>Merge\<close> are the methods of \<^verbatim>\<open>prop.Media\<close>, returning the updated
  receiver; \<open>emptyMedia\<close> and \<open>emptyConstraints\<close> are the zero values; \<open>MediaString\<close> and
  \<open>ConstraintsString\<close> are what \<^verbatim>\<open>fmt\<close> prints for \<^verbatim>\<open>&p\<close> and \<^verbatim>\<open>&constraints\<close>;
  \<open>NewMediaStream\<close> builds the stream from the tracks, or fails.
  \<open>round64\<close> is the rounding of an exact number to \<^verbatim>\<open>float64\<close>, in the subtraction and in
  the conversion \<^verbatim>\<open>float64(d.Info().Priority)\<close>.
\<close>

record ('mc, 'p, 's) env =
  FitnessDistance :: "'mc \<Rightarrow> 'p \<Rightarrow> float64 \<times> bool"
  MergeConstraints :: "'p \<Rightarrow> 'mc \<Rightarrow> 'p"
  Merge :: "'p \<Rightarrow> 'p \<Rightarrow> 'p"
  emptyMedia :: 'p
  emptyConstraints :: 'mc
  MediaString :: "'p \<Rightarrow> string"
  ConstraintsString :: "('mc, 'p) MediaTrackConstraints \<Rightarrow> string"
  rangeBest :: "'p driverProps \<Rightarrow> 'p driverProps"
  rangeFound :: "'p driverProps \<Rightarrow> 'p driverProps"
  NewMediaStream :: "'p baseTrack list \<Rightarrow> error + 's"
  round64 :: "real \<Rightarrow> float64"

text \<open>
  The running minimum starts at \<^verbatim>\<open>math.Inf(1)\<close>. In \<open>propLoop\<close>, \<open>priority\<close> is the
  converted priority, and \<open>dist\<close> is \<^verbatim>\<open>fitnessDist\<close> after \<^verbatim>\<open>fitnessDist -= priority\<close>.
\<close>

record 'p bestVars =
  minFitnessDist :: float64
  bestDriver :: "DriverID option"
  bestProp :: 'p

fun propLoop ::
  "('mc, 'p, 's) env \<Rightarrow> 'mc \<Rightarrow> DriverID \<Rightarrow> float64 \<Rightarrow> 'p list \<Rightarrow> 'p bestVars \<Rightarrow> 'p bestVars"
where
  "propLoop E mc d priority [] b = b"
| "propLoop E mc d priority (p # ps) b =
     (case FitnessDistance E mc p of
        (fitnessDist, ok) \<Rightarrow>
          if \<not> ok then propLoop E mc d priority ps b
          else
            (let dist = float64_sub (round64 E) fitnessDist priority
             in if float64_less dist (minFitnessDist b) then
                  propLoop E mc d priority ps
                    \<lparr>minFitnessDist = dist, bestDriver = Some d, bestProp = p\<rparr>
                else propLoop E mc d priority ps b))"

fun driverLoop ::
  "('mc, 'p, 's) env \<Rightarrow> 'mc \<Rightarrow> 'p world \<Rightarrow> 'p driverProps \<Rightarrow> 'p bestVars \<Rightarrow> 'p bestVars"
where
  "driverLoop E mc w [] b = b"
| "driverLoop E mc w ((d, props) # rest) b =
     driverLoop E mc w rest (propLoop E mc d (round64 E (Priority (drv w d))) props b)"

definition errNotFound :: error where
  "errNotFound = ErrorString ''failed to find the best driver that fits the constraints''"

definition foundProperties :: "('mc, 'p, 's) env \<Rightarrow> 'p driverProps \<Rightarrow> string list" where
  "foundProperties E m = concat (map (\<lambda>(d, props). map (MediaString E) props) (rangeFound E m))"

definition notFoundMessage ::
  "('mc, 'p, 's) env \<Rightarrow> string list \<Rightarrow> ('mc, 'p) MediaTrackConstraints \<Rightarrow> string"
where
  "notFoundMessage E found constraints =
     Error errNotFound @ '':'' @ newline @
     ''============ Found Properties ============'' @ newline @ newline @
     strings_Join found (newline @ newline) @ newline @ newline @
     ''=============== Constraints =============='' @ newline @ newline @
     ConstraintsString E constraints @ newline"

definition selectBestDriver ::
  "('mc, 'p, 's) env \<Rightarrow> 'p FilterFn \<Rightarrow> ('mc, 'p) MediaTrackConstraints \<Rightarrow> 'p world \<Rightarrow>
     (error + DriverID \<times> ('mc, 'p) MediaTrackConstraints) \<times> 'p world"
where
  "selectBestDriver E f constraints w =
     (case queryDriverProperties f w of
        (m, w') \<Rightarrow>
          (let b = driverLoop E (MediaConstraints constraints) w' (rangeBest E m)
                     \<lparr>minFitnessDist = PosInf, bestDriver = None, bestProp = emptyMedia E\<rparr>
           in case bestDriver b of
                None \<Rightarrow>
                  (Inl (WrapError (notFoundMessage E (foundProperties E m) constraints) errNotFound), w')
              | Some d \<Rightarrow>
                  (Inr (d, constraints\<lparr>selectedMedia :=
                          Merge E (MergeConstraints E (emptyMedia E) (MediaConstraints constraints))
                            (bestProp b)\<rparr>), w')))"

text \<open>
  The pairs in the order the first loop meets them; whether a pair satisfies every
  required attribute; its effective score, the \<^verbatim>\<open>float64\<close> the code computes for it; and
  the candidates, the pairs that satisfy every required attribute and whose score compares
  below \<^verbatim>\<open>+Inf\<close>, so is neither NaN nor \<^verbatim>\<open>+Inf\<close>.
\<close>

definition encountered :: "('mc, 'p, 's) env \<Rightarrow> 'p driverProps \<Rightarrow> (DriverID \<times> 'p) list" where
  "encountered E m = concat (map (\<lambda>(d, props). map (Pair d) props) (rangeBest E m))"

definition satisfies :: "('mc, 'p, 's) env \<Rightarrow> 'mc \<Rightarrow> DriverID \<times> 'p \<Rightarrow> bool" where
  "satisfies E mc dp = snd (FitnessDistance E mc (snd dp))"

definition score :: "('mc, 'p, 's) env \<Rightarrow> 'mc \<Rightarrow> 'p world \<Rightarrow> DriverID \<times> 'p \<Rightarrow> float64" where
  "score E mc w dp =
     float64_sub (round64 E) (fst (FitnessDistance E mc (snd dp)))
       (round64 E (Priority (drv w (fst dp))))"

definition candidate :: "('mc, 'p, 's) env \<Rightarrow> 'mc \<Rightarrow> 'p world \<Rightarrow> DriverID \<times> 'p \<Rightarrow> bool" where
  "candidate E mc w dp \<longleftrightarrow> satisfies E mc dp \<and> float64_less (score E mc w dp) PosInf"

text \<open>The drivers of a query whose properties were read: open already, or opened with success.\<close>

definition queried :: "'p FilterFn \<Rightarrow> 'p world \<Rightarrow> DriverID list" where
  "queried f w =
     filter (\<lambda>d. status (drv w d) \<noteq> StateClosed \<or> openErr (drv w d) = None) (Query f w)"

text \<open>
  The invariant of the query loop, against the world \<open>w\<close> the query started in: the
  drivers in \<open>needToClose\<close> were closed, opened without error and differ from \<open>w\<close> in
  their status only; the others are as in \<open>w\<close>; the calls logged so far are the \<open>Open\<close>
  calls on \<open>opened\<close>; the map holds properties as reported.
\<close>

definition queryInv ::
  "'p world \<Rightarrow> DriverID list \<Rightarrow> DriverID list \<Rightarrow> 'p driverProps \<Rightarrow> 'p world \<Rightarrow> bool"
where
  "queryInv w needToClose opened m wc \<longleftrightarrow>
     (\<forall>d. drv wc d = (if d \<in> set needToClose then (drv w d)\<lparr>status := StateOpened\<rparr> else drv w d)) \<and>
     (\<forall>d\<in>set needToClose. status (drv w d) = StateClosed \<and> openErr (drv w d) = None) \<and>
     set needToClose \<subseteq> set opened \<and>
     registered wc = registered w \<and> tracks wc = tracks w \<and>
     driverCalls wc = driverCalls w @ map OpenCall opened \<and>
     (\<forall>(d, v)\<in>set m. v = Properties (drv w d))"

section \<open>Tracks from drivers, and the two entry points\<close>

text \<open>
  A panic is not a returned error: \<open>Panic\<close> is the third outcome.
\<close>

datatype 'a result = Ok 'a | Err error | Panic error

definition errInvalidDriverType :: error where
  "errInvalidDriverType = ErrorString ''invalid driver type''"

text \<open>
  Modelled from the spec: \<^verbatim>\<open>VideoRecord\<close> and \<^verbatim>\<open>AudioRecord\<close> of a driver, which are not
  among the sources. They fail with the driver's \<open>recordErr\<close> or hand out a reader, named by
  the driver.
\<close>

definition Record :: "DriverID \<Rightarrow> 'p \<Rightarrow> 'p world \<Rightarrow> error + Reader" where
  "Record d p w = (case recordErr (drv w d) of Some e \<Rightarrow> Inl e | None \<Rightarrow> Inr d)"

text \<open>
  The two constructors build the \<open>baseTrack\<close> on the source; the wrapped reader and the
  broadcaster they also build are outside this development. The new Track is logged in
  the world.
\<close>

definition newVideoTrackFromReader ::
  "DriverID \<Rightarrow> Reader \<Rightarrow> 'p CodecSelector \<Rightarrow> 'p world \<Rightarrow> 'p baseTrack \<times> 'p world"
where
  "newVideoTrackFromReader source reader sel w =
     (let t = newBaseTrack source VideoInput sel in (t, w\<lparr>tracks := tracks w @ [t]\<rparr>))"

definition newAudioTrackFromReader ::
  "DriverID \<Rightarrow> Reader \<Rightarrow> 'p CodecSelector \<Rightarrow> 'p world \<Rightarrow> 'p baseTrack \<times> 'p world"
where
  "newAudioTrackFromReader source reader sel w =
     (let t = newBaseTrack source AudioInput sel in (t, w\<lparr>tracks := tracks w @ [t]\<rparr>))"

definition newVideoTrackFromDriver ::
  "DriverID \<Rightarrow> ('mc, 'p) MediaTrackConstraints \<Rightarrow> 'p CodecSelector \<Rightarrow> 'p world \<Rightarrow>
     'p baseTrack result \<times> 'p world"
where
  "newVideoTrackFromDriver d constraints sel w =
     (case Record d (selectedMedia constraints) w of
        Inl e \<Rightarrow> (Err e, w)
      | Inr reader \<Rightarrow>
          (case newVideoTrackFromReader d reader sel w of (t, w') \<Rightarrow> (Ok t, w')))"

definition newAudioTrackFromDriver ::
  "DriverID \<Rightarrow> ('mc, 'p) MediaTrackConstraints \<Rightarrow> 'p CodecSelector \<Rightarrow> 'p world \<Rightarrow>
     'p baseTrack result \<times> 'p world"
where
  "newAudioTrackFromDriver d constraints sel w =
     (case Record d (selectedMedia constraints) w of
        Inl e \<Rightarrow> (Err e, w)
      | Inr reader \<Rightarrow>
          (case newAudioTrackFromReader d reader sel w of (t, w') \<Rightarrow> (Ok t, w')))"

definition newTrackFromDriver ::
  "DriverID \<Rightarrow> ('mc, 'p) MediaTrackConstraints \<Rightarrow> 'p CodecSelector \<Rightarrow> 'p world \<Rightarrow>
     'p baseTrack result \<times> 'p world"
where
  "newTrackFromDriver d constraints sel w =
     (case Open d w of
        (Some e, w') \<Rightarrow> (Err e, w')
      | (None, w') \<Rightarrow>
          if isVideoRecorder (drv w' d) then newVideoTrackFromDriver d constraints sel w'
          else if isAudioRecorder (drv w' d) then newAudioTrackFromDriver d constraints sel w'
          else (Panic errInvalidDriverType, w'))"

definition selectAudio ::
  "('mc, 'p, 's) env \<Rightarrow> ('mc, 'p) MediaTrackConstraints \<Rightarrow> 'p CodecSelector \<Rightarrow> 'p world \<Rightarrow>
     'p baseTrack result \<times> 'p world"
where
  "selectAudio E constraints sel w =
     (let typeFilter = FilterAudioRecorder
      in case selectBestDriver E typeFilter constraints w of
           (Inl e, w') \<Rightarrow> (Err e, w')
         | (Inr (d, c), w') \<Rightarrow> newTrackFromDriver d c sel w')"

definition selectVideo ::
  "('mc, 'p, 's) env \<Rightarrow> ('mc, 'p) MediaTrackConstraints \<Rightarrow> 'p CodecSelector \<Rightarrow> 'p world \<Rightarrow>
     'p baseTrack result \<times> 'p world"
where
  "selectVideo E constraints sel w =
     (let typeFilter = FilterVideoRecorder;
          notScreenFilter = FilterNot (FilterDeviceType Screen);
          filter = FilterAnd typeFilter notScreenFilter
      in case selectBestDriver E filter constraints w of
           (Inl e, w') \<Rightarrow> (Err e, w')
         | (Inr (d, c), w') \<Rightarrow> newTrackFromDriver d c sel w')"

definition selectScreen ::
  "('mc, 'p, 's) env \<Rightarrow> ('mc, 'p) MediaTrackConstraints \<Rightarrow> 'p CodecSelector \<Rightarrow> 'p world \<Rightarrow>
     'p baseTrack result \<times> 'p world"
where
  "selectScreen E constraints sel w =
     (let typeFilter = FilterVideoRecorder;
          screenFilter = FilterDeviceType Screen;
          filter = FilterAnd typeFilter screenFilter
      in case selectBestDriver E filter constraints w of
           (Inl e, w') \<Rightarrow> (Err e, w')
         | (Inr (d, c), w') \<Rightarrow> newTrackFromDriver d c sel w')"

text \<open>
  \<^verbatim>\<open>t.Close()\<close> on a Track is the \<^verbatim>\<open>Close\<close> of its embedded \<^verbatim>\<open>Source\<close>, the driver.
\<close>

definition Track_Close :: "'p baseTrack \<Rightarrow> 'p world \<Rightarrow> 'p world" where
  "Track_Close t w = Close (Source t) w"

definition cleanTrackers :: "'p baseTrack list \<Rightarrow> 'p world \<Rightarrow> 'p world" where
  "cleanTrackers trackers w = fold Track_Close trackers w"

text \<open>
  \<^verbatim>\<open>MediaStreamConstraints\<close>: the two optional functions that fill in the track constraints,
  and the codec selector.
\<close>

record ('mc, 'p) MediaStreamConstraints =
  Audio :: "(('mc, 'p) MediaTrackConstraints \<Rightarrow> ('mc, 'p) MediaTrackConstraints) option"
  Video :: "(('mc, 'p) MediaTrackConstraints \<Rightarrow> ('mc, 'p) MediaTrackConstraints) option"
  Codec :: "'p CodecSelector"

definition zeroConstraints :: "('mc, 'p, 's) env \<Rightarrow> ('mc, 'p) MediaTrackConstraints" where
  "zeroConstraints E =
     \<lparr>MediaConstraints = emptyConstraints E, Enabled = False, selectedMedia = emptyMedia E\<rparr>"

definition applyOption ::
  "(('mc, 'p) MediaTrackConstraints \<Rightarrow> ('mc, 'p) MediaTrackConstraints) option \<Rightarrow>
     ('mc, 'p) MediaTrackConstraints \<Rightarrow> ('mc, 'p) MediaTrackConstraints"
where
  "applyOption opt c = (case opt of None \<Rightarrow> c | Some g \<Rightarrow> g c)"

text \<open>
  One \<^verbatim>\<open>if constraints.Enabled { ... }\<close> block of the entry points: select a track and
  append it to \<^verbatim>\<open>trackers\<close>, or clean the trackers collected so far and return the error.
\<close>

definition selectInto ::
  "(('mc, 'p) MediaTrackConstraints \<Rightarrow> 'p CodecSelector \<Rightarrow> 'p world \<Rightarrow> 'p baseTrack result \<times> 'p world) \<Rightarrow>
     ('mc, 'p) MediaTrackConstraints \<Rightarrow> 'p CodecSelector \<Rightarrow> 'p baseTrack list \<Rightarrow> 'p world \<Rightarrow>
     'p baseTrack list result \<times> 'p world"
where
  "selectInto sel_fn constraints codec trackers w =
     (if Enabled constraints then
        (case sel_fn constraints codec w of
           (Err e, w') \<Rightarrow> (Err e, cleanTrackers trackers w')
         | (Panic e, w') \<Rightarrow> (Panic e, w')
         | (Ok tracker, w') \<Rightarrow> (Ok (trackers @ [tracker]), w'))
      else (Ok trackers, w))"

definition finishStream ::
  "('mc, 'p, 's) env \<Rightarrow> 'p baseTrack list \<Rightarrow> 'p world \<Rightarrow> 's result \<times> 'p world"
where
  "finishStream E trackers w =
     (case NewMediaStream E trackers of
        Inl e \<Rightarrow> (Err e, cleanTrackers trackers w)
      | Inr s \<Rightarrow> (Ok s, w))"

definition GetDisplayMedia ::
  "('mc, 'p, 's) env \<Rightarrow> ('mc, 'p) MediaStreamConstraints \<Rightarrow> 'p world \<Rightarrow> 's result \<times> 'p world"
where
  "GetDisplayMedia E constraints w =
     (let videoConstraints = applyOption (Video constraints) (zeroConstraints E)
      in case selectInto (selectScreen E) videoConstraints (Codec constraints) [] w of
           (Err e, w') \<Rightarrow> (Err e, w')
         | (Panic e, w') \<Rightarrow> (Panic e, w')
         | (Ok trackers, w') \<Rightarrow> finishStream E trackers w')"

definition GetUserMedia ::
  "('mc, 'p, 's) env \<Rightarrow> ('mc, 'p) MediaStreamConstraints \<Rightarrow> 'p world \<Rightarrow> 's result \<times> 'p world"
where
  "GetUserMedia E constraints w =
     (let videoConstraints = applyOption (Video constraints) (zeroConstraints E);
          audioConstraints = applyOption (Audio constraints) (zeroConstraints E)
      in case selectInto (selectVideo E) videoConstraints (Codec constraints) [] w of
           (Err e, w') \<Rightarrow> (Err e, w')
         | (Panic e, w') \<Rightarrow> (Panic e, w')
         | (Ok trackers, w') \<Rightarrow>
             (case selectInto (selectAudio E) audioConstraints (Codec constraints) trackers w' of
                (Err e, w'') \<Rightarrow> (Err e, w'')
              | (Panic e, w'') \<Rightarrow> (Panic e, w'')
              | (Ok trackers', w'') \<Rightarrow> finishStream E trackers' w''))"

text \<open>
  The invariant of the two selection loops after the pairs \<open>seen\<close>: no candidate was seen
  and the variables are as initialised, or the candidates seen split around the current
  best, strictly worse ones before it and no better ones after it.
\<close>

definition bestInv ::
  "('mc, 'p, 's) env \<Rightarrow> 'mc \<Rightarrow> 'p world \<Rightarrow> (DriverID \<times> 'p) list \<Rightarrow> 'p bestVars \<Rightarrow> bool"
where
  "bestInv E mc w seen b \<longleftrightarrow>
     (filter (candidate E mc w) seen = [] \<and> minFitnessDist b = PosInf \<and> bestDriver b = None) \<or>
     (\<exists>pre best post.
        filter (candidate E mc w) seen = pre @ best # post \<and>
        (\<forall>x\<in>set pre. float64_less (score E mc w best) (score E mc w x)) \<and>
        (\<forall>x\<in>set post. float64_le (score E mc w best) (score E mc w x)) \<and>
        minFitnessDist b = score E mc w best \<and>
        bestDriver b = Some (fst best) \<and> bestProp b = snd best)"

text \<open>
  What the proofs need of a selection function: it constructs one Track when it succeeds
  and none otherwise.
\<close>

definition createsAtMostOne ::
  "('p world \<Rightarrow> 'p baseTrack result \<times> 'p world) \<Rightarrow> bool"
where
  "createsAtMostOne sel_fn \<longleftrightarrow>
     (\<forall>w r w'. sel_fn w = (r, w') \<longrightarrow>
        (case r of Ok t \<Rightarrow> tracks w' = tracks w @ [t] | Err e \<Rightarrow> tracks w' = tracks w
         | Panic e \<Rightarrow> tracks w' = tracks w))"

section \<open>An example world\<close>

text \<open>
  The concrete inputs of the examples. A media property is a width; the constraint is a
  width, ideal or exact. Drivers 0, 1 and 2 are cameras (0 closed, 1 open, 2 closed and
  failing to open), driver 3 is a microphone, driver 4 a screen. The stream of \<open>exEnv\<close>
  accepts at most one track, the stream of \<open>exEnvRefusing\<close> none. In \<open>exEnv\<close> every number
  that occurs is a \<^verbatim>\<open>float64\<close> value, so nothing is rounded; in \<open>exEnvNaN\<close> every distance
  is NaN.
\<close>

definition exEnv :: "(nat \<times> bool, nat, unit) env" where
  "exEnv =
     \<lparr>FitnessDistance =
        (\<lambda>mc p. (if p = fst mc then Finite 0 else Finite 1, \<not> snd mc \<or> p = fst mc)),
      MergeConstraints = (\<lambda>p mc. fst mc),
      Merge = (\<lambda>p q. q),
      emptyMedia = 0,
      emptyConstraints = (0, False),
      MediaString = (\<lambda>p. if p = 640 then ''640'' else if p = 1280 then ''1280'' else ''?''),
      ConstraintsString = (\<lambda>c. if snd (MediaConstraints c) then ''exact'' else ''ideal''),
      rangeBest = id,
      rangeFound = rev,
      NewMediaStream = (\<lambda>trackers. if length trackers < 2 then Inr () else Inl (ErrorString ''too many'')),
      round64 = Finite\<rparr>"

definition exEnvRefusing :: "(nat \<times> bool, nat, unit) env" where
  "exEnvRefusing = exEnv\<lparr>NewMediaStream := (\<lambda>trackers. Inl (ErrorString ''refused''))\<rparr>"

definition exEnvNaN :: "(nat \<times> bool, nat, unit) env" where
  "exEnvNaN = exEnv\<lparr>FitnessDistance := (\<lambda>mc p. (NaN, True))\<rparr>"

text \<open>
  The environment and the world of the rounding example: one open camera of priority
  \<open>10^16\<close> reporting the widths 500 and 1000, distance \<open>1/2\<close> off the ideal width. Its
  \<open>round64\<close> is the rounding to nearest on the numbers that occur: \<open>10^16\<close> and
  \<open>-10^16\<close> are \<^verbatim>\<open>float64\<close> values, and \<open>1/2 - 10^16\<close> lies between the neighbouring values
  \<open>-10^16\<close> and \<open>-10^16 + 2\<close>, nearer the first.
\<close>

definition exEnvRounding :: "(nat \<times> bool, nat, unit) env" where
  "exEnvRounding =
     exEnv\<lparr>FitnessDistance := (\<lambda>mc p. (if p = fst mc then Finite 0 else Finite (1 / 2), True)),
           round64 := (\<lambda>x. if x = 1 / 2 - 10 ^ 16 then Finite (- (10 ^ 16)) else Finite x)\<rparr>"

definition exWorldRounding :: "nat world" where
  "exWorldRounding =
     \<lparr>registered = [0],
      drv = (\<lambda>d. \<lparr>status = StateOpened, openErr = None, Properties = [500, 1000],
                   Priority = 10 ^ 16, DeviceType = Camera, isVideoRecorder = True,
                   isAudioRecorder = False, recordErr = None\<rparr>),
      driverCalls = [], tracks = []\<rparr>"

definition exDriver :: "DriverID \<Rightarrow> nat Driver" where
  "exDriver d =
     (if d = 0 then
        \<lparr>status = StateClosed, openErr = None, Properties = [640, 1280], Priority = 0,
         DeviceType = Camera, isVideoRecorder = True, isAudioRecorder = False, recordErr = None\<rparr>
      else if d = 1 then
        \<lparr>status = StateOpened, openErr = None, Properties = [1280], Priority = 0,
         DeviceType = Camera, isVideoRecorder = True, isAudioRecorder = False, recordErr = None\<rparr>
      else if d = 2 then
        \<lparr>status = StateClosed, openErr = Some (ErrorString ''busy''), Properties = [1920], Priority = 5,
         DeviceType = Camera, isVideoRecorder = True, isAudioRecorder = False, recordErr = None\<rparr>
      else if d = 3 then
        \<lparr>status = StateClosed, openErr = None, Properties = [48000], Priority = 0,
         DeviceType = Microphone, isVideoRecorder = False, isAudioRecorder = True, recordErr = None\<rparr>
      else
        \<lparr>status = StateClosed, openErr = None, Properties = [3840], Priority = 0,
         DeviceType = Screen, isVideoRecorder = True, isAudioRecorder = False, recordErr = None\<rparr>)"

definition exWorld :: "nat world" where
  "exWorld = \<lparr>registered = [0, 1, 2, 3, 4], drv = exDriver, driverCalls = [], tracks = []\<rparr>"

definition exConstraints :: "nat \<Rightarrow> bool \<Rightarrow> (nat \<times> bool, nat) MediaTrackConstraints" where
  "exConstraints width exact = \<lparr>MediaConstraints = (width, exact), Enabled = True, selectedMedia = 0\<rparr>"

definition exStream :: "(nat \<times> bool, nat) MediaStreamConstraints" where
  "exStream = \<lparr>Audio = Some (\<lambda>c. c\<lparr>Enabled := True\<rparr>),
               Video = Some (\<lambda>c. c\<lparr>MediaConstraints := (1280, False), Enabled := True\<rparr>),
               Codec = \<lparr>videoEncoders = []\<rparr>\<rparr>"

lemmas ex_defs = exEnv_def exEnvRefusing_def exEnvNaN_def exEnvRounding_def exWorldRounding_def exWorld_def exDriver_def exConstraints_def exStream_def

lemmas driver_defs = Query_def FilterVideoRecorder_def FilterAudioRecorder_def FilterDeviceType_def
  FilterNot_def FilterAnd_def Open_def Close_def setStatus_def logCall_def

lemmas select_defs = selectBestDriver_def queryDriverProperties_def
  newTrackFromDriver_def newVideoTrackFromDriver_def newAudioTrackFromDriver_def
  newVideoTrackFromReader_def newAudioTrackFromReader_def Record_def selectVideo_def selectAudio_def selectScreen_def

lemmas entry_defs = GetUserMedia_def GetDisplayMedia_def selectInto_def finishStream_def
  cleanTrackers_def Track_Close_def zeroConstraints_def applyOption_def newBaseTrack_def

section \<open>Track: proofs\<close>

lemma trackInv_new: "trackInv (newBaseTrack source k sel)"
  by (simp add: trackInv_def newBaseTrack_def)

lemma trackInv_OnEnded: "trackInv track \<Longrightarrow> trackInv (OnEnded h track)"
  by (auto simp: trackInv_def OnEnded_def endOnce_Do_def callHandler_def Let_def
      split: option.splits)

lemma trackInv_onError: "trackInv track \<Longrightarrow> trackInv (onError e track)"
  by (auto simp: trackInv_def onError_def endOnce_Do_def callHandler_def Let_def
      split: option.splits)

lemma trackInv_step: "trackInv track \<Longrightarrow> trackInv (trackStep track c)"
  by (cases c) (simp_all add: trackInv_OnEnded trackInv_onError)

lemma trackInv_foldl: "trackInv track \<Longrightarrow> trackInv (foldl trackStep track cs)"
  by (induction cs arbitrary: track) (simp_all add: trackInv_step)

lemma trackInv_run: "trackInv (trackRun cs (newBaseTrack source k sel))"
  by (simp add: trackRun_def trackInv_foldl trackInv_new)

lemma err_OnEnded: "err (OnEnded h track) = err track"
  by (simp add: OnEnded_def endOnce_Do_def callHandler_def Let_def split: option.splits)

lemma err_onError: "err (onError e track) = Some e"
  by (simp add: onError_def endOnce_Do_def callHandler_def Let_def split: option.splits)

lemma err_foldl: "err (foldl trackStep track cs) = lastError cs (err track)"
proof (induction cs arbitrary: track)
  case Nil
  show ?case by simp
next
  case (Cons c cs)
  show ?case
  proof (cases c)
    case (CallOnEnded h)
    with Cons show ?thesis by (simp add: err_OnEnded)
  next
    case (CallOnError e)
    with Cons show ?thesis by (simp add: err_onError)
  qed
qed

text \<open>
  Claim C2. Over a Track's lifetime (any sequence of \<open>OnEnded\<close> registrations and errors
  arriving at the latch, from a new track) a handler is invoked at most once in total.
  The invocation happens when an error arrives for the first time while a handler is
  registered, or at a registration (of a non-nil handler) made after the error arrived
  while the guard has not fired, in which case no handler was registered since. Once the
  guard has fired, a later registration replaces the handler and invokes nothing. No
  other call invokes a handler.
\<close>

theorem OnEnded_handler_at_most_once:
  assumes "track = trackRun cs (newBaseTrack source k sel)"
  shows "length (invoked track) \<le> 1
    \<and> (\<forall>h e. onErrorHandler track = Some h \<and> err track = None \<longrightarrow>
          invoked (onError e track) = [(h, e)])
    \<and> (\<forall>h e. err track = Some e \<and> \<not> endOnce track \<longrightarrow>
          onErrorHandler track = None \<and> invoked (OnEnded (Some h) track) = [(h, e)])
    \<and> (\<forall>h. endOnce track \<longrightarrow>
          invoked (OnEnded h track) = invoked track \<and> onErrorHandler (OnEnded h track) = h)
    \<and> (\<forall>c. invoked (trackStep track c) \<noteq> invoked track \<longrightarrow>
          \<not> endOnce track \<and>
          ((\<exists>h e. c = CallOnError e \<and> onErrorHandler track = Some h \<and> err track = None) \<or>
           (\<exists>h. c = CallOnEnded (Some h) \<and> err track \<noteq> None \<and> onErrorHandler track = None)))"
proof -
  have inv: "trackInv track"
    using assms by (simp add: trackInv_run)
  have c1: "length (invoked track) \<le> 1"
    using inv by (simp add: trackInv_def)
  have c2: "\<forall>h e. onErrorHandler track = Some h \<and> err track = None \<longrightarrow>
          invoked (onError e track) = [(h, e)]"
    using inv by (auto simp: trackInv_def onError_def endOnce_Do_def callHandler_def Let_def)
  have c3: "\<forall>h e. err track = Some e \<and> \<not> endOnce track \<longrightarrow>
          onErrorHandler track = None \<and> invoked (OnEnded (Some h) track) = [(h, e)]"
    using inv by (auto simp: trackInv_def OnEnded_def endOnce_Do_def callHandler_def Let_def)
  have c4: "\<forall>h. endOnce track \<longrightarrow>
          invoked (OnEnded h track) = invoked track \<and> onErrorHandler (OnEnded h track) = h"
    by (auto simp: OnEnded_def endOnce_Do_def Let_def split: option.splits)
  have c5: "\<forall>c. invoked (trackStep track c) \<noteq> invoked track \<longrightarrow>
          \<not> endOnce track \<and>
          ((\<exists>h e. c = CallOnError e \<and> onErrorHandler track = Some h \<and> err track = None) \<or>
           (\<exists>h. c = CallOnEnded (Some h) \<and> err track \<noteq> None \<and> onErrorHandler track = None))"
  proof (intro allI impI)
    fix c assume a: "invoked (trackStep track c) \<noteq> invoked track"
    show "\<not> endOnce track \<and>
          ((\<exists>h e. c = CallOnError e \<and> onErrorHandler track = Some h \<and> err track = None) \<or>
           (\<exists>h. c = CallOnEnded (Some h) \<and> err track \<noteq> None \<and> onErrorHandler track = None))"
    proof (cases c)
      case (CallOnEnded h)
      with a inv show ?thesis
        by (auto simp: trackInv_def OnEnded_def endOnce_Do_def callHandler_def Let_def
            split: option.splits if_splits)
    next
      case (CallOnError e)
      with a inv show ?thesis
        by (auto simp: trackInv_def onError_def endOnce_Do_def callHandler_def Let_def
            split: option.splits if_splits)
    qed
  qed
  from c1 c2 c3 c4 c5 show ?thesis by blast
qed

theorem OnEnded_handler_at_most_once_witness:
  "invoked (onError (ErrorString ''EOF'')
      (trackRun [CallOnEnded (Some 1)]
         (newBaseTrack 0 VideoInput \<lparr>videoEncoders = ([] :: nat VideoEncoderBuilder list)\<rparr>)))
     = [(1, ErrorString ''EOF'')]
   \<and> invoked (OnEnded (Some 2)
      (trackRun [CallOnError (ErrorString ''EOF'')]
         (newBaseTrack 0 VideoInput \<lparr>videoEncoders = ([] :: nat VideoEncoderBuilder list)\<rparr>)))
     = [(2, ErrorString ''EOF'')]
   \<and> invoked (OnEnded (Some 3)
      (trackRun [CallOnEnded (Some 1), CallOnError (ErrorString ''EOF'')]
         (newBaseTrack 0 VideoInput \<lparr>videoEncoders = ([] :: nat VideoEncoderBuilder list)\<rparr>)))
     = [(1, ErrorString ''EOF'')]
   \<and> \<not> endOnce (trackRun [CallOnEnded (Some 1)]
         (newBaseTrack 0 VideoInput \<lparr>videoEncoders = ([] :: nat VideoEncoderBuilder list)\<rparr>))"
proof -
  let ?T = "newBaseTrack 0 VideoInput \<lparr>videoEncoders = ([] :: nat VideoEncoderBuilder list)\<rparr>"
  have a: "onErrorHandler (trackRun [CallOnEnded (Some 1)] ?T) = Some 1
           \<and> err (trackRun [CallOnEnded (Some 1)] ?T) = None"
    by (simp add: trackRun_def OnEnded_def newBaseTrack_def)
  have b: "err (trackRun [CallOnError (ErrorString ''EOF'')] ?T) = Some (ErrorString ''EOF'')
           \<and> \<not> endOnce (trackRun [CallOnError (ErrorString ''EOF'')] ?T)"
    by (simp add: trackRun_def onError_def newBaseTrack_def)
  have c: "endOnce (trackRun [CallOnEnded (Some 1), CallOnError (ErrorString ''EOF'')] ?T)
           \<and> invoked (trackRun [CallOnEnded (Some 1), CallOnError (ErrorString ''EOF'')] ?T)
               = [(1, ErrorString ''EOF'')]"
    by (simp add: trackRun_def OnEnded_def onError_def endOnce_Do_def callHandler_def
        newBaseTrack_def)
  from a OnEnded_handler_at_most_once [OF refl, of "[CallOnEnded (Some 1)]" 0 VideoInput]
  have 1: "invoked (onError (ErrorString ''EOF'') (trackRun [CallOnEnded (Some 1)] ?T))
             = [(1, ErrorString ''EOF'')]"
    by blast
  from b OnEnded_handler_at_most_once [OF refl, of "[CallOnError (ErrorString ''EOF'')]" 0 VideoInput]
  have 2: "invoked (OnEnded (Some 2) (trackRun [CallOnError (ErrorString ''EOF'')] ?T))
             = [(2, ErrorString ''EOF'')]"
    by blast
  from c OnEnded_handler_at_most_once
    [OF refl, of "[CallOnEnded (Some 1), CallOnError (ErrorString ''EOF'')]" 0 VideoInput]
  have 3: "invoked (OnEnded (Some 3)
             (trackRun [CallOnEnded (Some 1), CallOnError (ErrorString ''EOF'')] ?T))
             = [(1, ErrorString ''EOF'')]"
    by metis
  have d: "invoked (trackStep (trackRun [CallOnEnded (Some 1)] ?T) (CallOnError (ErrorString ''EOF'')))
           \<noteq> invoked (trackRun [CallOnEnded (Some 1)] ?T)"
    by (simp add: trackRun_def OnEnded_def onError_def endOnce_Do_def callHandler_def
        newBaseTrack_def)
  from d OnEnded_handler_at_most_once [OF refl, of "[CallOnEnded (Some 1)]" 0 VideoInput]
  have 4: "\<not> endOnce (trackRun [CallOnEnded (Some 1)] ?T)"
    by blast
  from 1 2 3 4 show ?thesis by blast
qed

text \<open>
  Claim C3, as stated: the latched error is write-once, a second call into the latch
  changes nothing. It fails: \<open>onError\<close> assigns \<open>err\<close> on every call. After two failing
  reads the stored error is the second one, and a handler registered afterwards is invoked
  with the second error.
\<close>

theorem latch_write_once_counterexample:
  "err (onError (ErrorString ''second'') (onError (ErrorString ''first'')
         (newBaseTrack 0 VideoInput \<lparr>videoEncoders = ([] :: nat VideoEncoderBuilder list)\<rparr>)))
     \<noteq> Some (ErrorString ''first'')
   \<and> invoked (OnEnded (Some 7) (onError (ErrorString ''second'') (onError (ErrorString ''first'')
         (newBaseTrack 0 VideoInput \<lparr>videoEncoders = ([] :: nat VideoEncoderBuilder list)\<rparr>))))
     = [(7, ErrorString ''second'')]"
  by (simp add: onError_def OnEnded_def endOnce_Do_def callHandler_def newBaseTrack_def)

text \<open>
  Claim C3, amended. The latch is last-write-wins: every call into it stores the error it
  is given, a registration never changes the stored error, and so after any sequence of
  calls the stored error is the error of the most recent call into the latch (the stored
  error of before, if there was none); once set it is never cleared.
\<close>

theorem latch_last_write_wins:
  "err (onError e track) = Some e
   \<and> err (OnEnded h track) = err track
   \<and> err (trackRun cs track) = lastError cs (err track)
   \<and> (err track \<noteq> None \<longrightarrow> err (trackRun cs track) \<noteq> None)"
proof -
  have "lastError cs (Some x) \<noteq> None" for x
    by (induction cs "Some x" arbitrary: x rule: lastError.induct) simp_all
  then have "err track \<noteq> None \<longrightarrow> lastError cs (err track) \<noteq> None"
    by auto
  then show ?thesis
    by (simp add: err_onError err_OnEnded err_foldl trackRun_def)
qed

theorem latch_last_write_wins_witness:
  "err (trackRun [CallOnError (ErrorString ''first''), CallOnEnded (Some 1),
                  CallOnError (ErrorString ''second'')]
         (newBaseTrack 0 VideoInput \<lparr>videoEncoders = ([] :: nat VideoEncoderBuilder list)\<rparr>))
     = Some (ErrorString ''second'')
   \<and> err (trackRun [CallOnEnded (Some 1), CallOnEnded None]
         (onError (ErrorString ''first'')
            (newBaseTrack 0 VideoInput \<lparr>videoEncoders = ([] :: nat VideoEncoderBuilder list)\<rparr>)))
     \<noteq> None"
proof -
  let ?T = "newBaseTrack 0 VideoInput \<lparr>videoEncoders = ([] :: nat VideoEncoderBuilder list)\<rparr>"
  let ?cs = "[CallOnError (ErrorString ''first''), CallOnEnded (Some 1),
              CallOnError (ErrorString ''second'')]"
  from latch_last_write_wins [where track = ?T and cs = ?cs]
  have "err (trackRun ?cs ?T) = lastError ?cs (err ?T)"
    by blast
  then have 1: "err (trackRun ?cs ?T) = Some (ErrorString ''second'')"
    by simp
  have h: "err (onError (ErrorString ''first'') ?T) \<noteq> None"
    by (simp add: onError_def newBaseTrack_def)
  from h latch_last_write_wins [where track = "onError (ErrorString ''first'') ?T"
      and cs = "[CallOnEnded (Some 1), CallOnEnded None]"]
  have 2: "err (trackRun [CallOnEnded (Some 1), CallOnEnded None]
             (onError (ErrorString ''first'') ?T)) \<noteq> None"
    by blast
  from 1 2 show ?thesis by blast
qed

section \<open>Codec selector: proofs\<close>

lemma firstSuccessfulBuild_append:
  "firstSuccessfulBuild reader p (xs @ ys) =
     (case firstSuccessfulBuild reader p xs of
        Some r \<Rightarrow> Some r
      | None \<Rightarrow> firstSuccessfulBuild reader p ys)"
  by (induction xs) (simp_all split: sum.splits)

lemma encoderLoop_Some:
  "firstSuccessfulBuild reader p (filter (\<lambda>encoder. RTPCodecName encoder = name) encoders) = Some r
   \<Longrightarrow> \<exists>vars'. encoderLoop name reader p encoders vars = (True, vars')
                  \<and> encodedReader vars' = Some r \<and> selectedEncoder vars' \<noteq> None"
proof (induction encoders arbitrary: vars)
  case Nil
  then show ?case by simp
next
  case (Cons encoder rest)
  show ?case
  proof (cases "RTPCodecName encoder = name")
    case False
    with Cons show ?thesis by simp
  next
    case True
    show ?thesis
    proof (cases "BuildVideoEncoder encoder reader p")
      case (Inr r')
      with True Cons.prems show ?thesis by simp
    next
      case (Inl e)
      with True Cons show ?thesis by simp
    qed
  qed
qed

lemma encoderLoop_None:
  "firstSuccessfulBuild reader p (filter (\<lambda>encoder. RTPCodecName encoder = name) encoders) = None
   \<Longrightarrow> \<exists>vars'. encoderLoop name reader p encoders vars = (False, vars')
                  \<and> selectedEncoder vars' = selectedEncoder vars"
proof (induction encoders arbitrary: vars)
  case Nil
  then show ?case by simp
next
  case (Cons encoder rest)
  show ?case
  proof (cases "RTPCodecName encoder = name")
    case False
    with Cons.prems have "firstSuccessfulBuild reader p
        (filter (\<lambda>encoder. RTPCodecName encoder = name) rest) = None"
      by simp
    from Cons.IH [OF this, of "vars\<lparr>errReasons := errReasons vars @ [fmtReason (RTPCodecName encoder) (cerr vars)]\<rparr>"] False
    show ?thesis by simp
  next
    case True
    show ?thesis
    proof (cases "BuildVideoEncoder encoder reader p")
      case (Inr r')
      with True Cons.prems show ?thesis by simp
    next
      case (Inl e)
      with True Cons.prems have "firstSuccessfulBuild reader p
          (filter (\<lambda>encoder. RTPCodecName encoder = name) rest) = None"
        by simp
      from Cons.IH [OF this, of "vars\<lparr>encodedReader := None, cerr := Some e,
                     errReasons := errReasons vars @ [fmtReason (RTPCodecName encoder) (Some e)]\<rparr>"] True Inl
      show ?thesis by simp
    qed
  qed
qed

lemma attemptsInOrder_Cons:
  "attemptsInOrder (name # rest) encoders =
     filter (\<lambda>encoder. RTPCodecName encoder = name) encoders @ attemptsInOrder rest encoders"
  by (simp add: attemptsInOrder_def)

lemma wantLoop_Some:
  "firstSuccessfulBuild reader p (attemptsInOrder wantCodecs encoders) = Some r \<Longrightarrow>
   encodedReader (wantLoop wantCodecs reader p encoders vars) = Some r
   \<and> selectedEncoder (wantLoop wantCodecs reader p encoders vars) \<noteq> None"
proof (induction wantCodecs arbitrary: vars)
  case Nil
  then show ?case by (simp add: attemptsInOrder_def)
next
  case (Cons name rest)
  let ?here = "firstSuccessfulBuild reader p (filter (\<lambda>encoder. RTPCodecName encoder = name) encoders)"
  show ?case
  proof (cases ?here)
    case (Some r')
    with Cons.prems have "r' = r"
      by (simp add: attemptsInOrder_Cons firstSuccessfulBuild_append)
    with Some encoderLoop_Some [of reader p name encoders r vars]
    obtain vars' where "encoderLoop name reader p encoders vars = (True, vars')"
      "encodedReader vars' = Some r" "selectedEncoder vars' \<noteq> None"
      by auto
    then show ?thesis by simp
  next
    case None
    with encoderLoop_None [of reader p name encoders vars]
    obtain vars' where v: "encoderLoop name reader p encoders vars = (False, vars')"
      by auto
    from None Cons.prems have "firstSuccessfulBuild reader p (attemptsInOrder rest encoders) = Some r"
      by (simp add: attemptsInOrder_Cons firstSuccessfulBuild_append)
    from Cons.IH [OF this] v show ?thesis by simp
  qed
qed

lemma wantLoop_None:
  "firstSuccessfulBuild reader p (attemptsInOrder wantCodecs encoders) = None \<Longrightarrow>
   selectedEncoder (wantLoop wantCodecs reader p encoders vars) = selectedEncoder vars"
proof (induction wantCodecs arbitrary: vars)
  case Nil
  then show ?case by simp
next
  case (Cons name rest)
  let ?here = "firstSuccessfulBuild reader p (filter (\<lambda>encoder. RTPCodecName encoder = name) encoders)"
  from Cons.prems have here: "?here = None"
    by (simp add: attemptsInOrder_Cons firstSuccessfulBuild_append split: option.splits)
  with Cons.prems have later: "firstSuccessfulBuild reader p (attemptsInOrder rest encoders) = None"
    by (simp add: attemptsInOrder_Cons firstSuccessfulBuild_append)
  from here encoderLoop_None [of reader p name encoders vars]
  obtain vars' where v: "encoderLoop name reader p encoders vars = (False, vars')"
    "selectedEncoder vars' = selectedEncoder vars"
    by auto
  from Cons.IH [OF later, of vars'] v show ?case by simp
qed

text \<open>
  Claim C5. The negotiation tries the wanted names in order and, for each, every local
  builder advertising that name, in the builders' order; the reader of the first build
  that succeeds is returned, so a wanted name without a working builder is passed over
  for a later one that has one. If no build succeeds the result is an error. (A failing
  probe read returns its error before any build.)
\<close>

theorem selectVideoCodec_first_working:
  "selectVideoCodec sel wantCodecs (Inl e) reader = Inl e
   \<and> (\<forall>r. firstSuccessfulBuild reader p (attemptsInOrder wantCodecs (videoEncoders sel)) = Some r
          \<longrightarrow> selectVideoCodec sel wantCodecs (Inr p) reader = Inr (Some r))
   \<and> (firstSuccessfulBuild reader p (attemptsInOrder wantCodecs (videoEncoders sel)) = None
          \<longrightarrow> (\<exists>msg. selectVideoCodec sel wantCodecs (Inr p) reader = Inl (ErrorString msg)))"
proof -
  let ?v0 = "\<lparr>selectedEncoder = None, encodedReader = None, cerr = None, errReasons = []\<rparr> :: 'a codecVars"
  have 1: "selectVideoCodec sel wantCodecs (Inl e) reader = Inl e"
    by (simp add: selectVideoCodec_def)
  have 2: "selectVideoCodec sel wantCodecs (Inr p) reader = Inr (Some r)"
    if "firstSuccessfulBuild reader p (attemptsInOrder wantCodecs (videoEncoders sel)) = Some r" for r
    using wantLoop_Some [OF that, of ?v0]
    by (auto simp: selectVideoCodec_def Let_def split: option.splits)
  have 3: "\<exists>msg. selectVideoCodec sel wantCodecs (Inr p) reader = Inl (ErrorString msg)"
    if "firstSuccessfulBuild reader p (attemptsInOrder wantCodecs (videoEncoders sel)) = None"
    using wantLoop_None [OF that, of ?v0]
    by (simp add: selectVideoCodec_def Let_def)
  from 1 2 3 show ?thesis by blast
qed

theorem selectVideoCodec_first_working_witness:
  "selectVideoCodec \<lparr>videoEncoders = [\<lparr>RTPCodecName = ''H264'', BuildVideoEncoder = (\<lambda>r p. Inl (ErrorString ''no h264''))\<rparr>, \<lparr>RTPCodecName = ''VP8'', BuildVideoEncoder = (\<lambda>r p. Inr 42)\<rparr> :: nat VideoEncoderBuilder]\<rparr>
      [''H264'', ''VP8''] (Inr 0) 1 = Inr (Some 42)
   \<and> selectVideoCodec \<lparr>videoEncoders = [\<lparr>RTPCodecName = ''H264'', BuildVideoEncoder = (\<lambda>r p. Inl (ErrorString ''no h264''))\<rparr>, \<lparr>RTPCodecName = ''VP8'', BuildVideoEncoder = (\<lambda>r p. Inr 42)\<rparr> :: nat VideoEncoderBuilder]\<rparr>
      [''VP8'', ''H264''] (Inr 0) 1 = Inr (Some 42)
   \<and> (\<exists>msg. selectVideoCodec
        \<lparr>videoEncoders = [\<lparr>RTPCodecName = ''H264'', BuildVideoEncoder = (\<lambda>r p. Inl (ErrorString ''no h264''))\<rparr>, \<lparr>RTPCodecName = ''VP8'', BuildVideoEncoder = (\<lambda>r p. Inr 42)\<rparr> :: nat VideoEncoderBuilder]\<rparr>
        [''H264'', ''VP9''] (Inr 0) 1 = Inl (ErrorString msg))"
proof -
  let ?sel = "\<lparr>videoEncoders = [\<lparr>RTPCodecName = ''H264'', BuildVideoEncoder = (\<lambda>r p. Inl (ErrorString ''no h264''))\<rparr>, \<lparr>RTPCodecName = ''VP8'', BuildVideoEncoder = (\<lambda>r p. Inr 42)\<rparr> :: nat VideoEncoderBuilder]\<rparr>"
  have a: "firstSuccessfulBuild 1 0 (attemptsInOrder [''H264'', ''VP8''] (videoEncoders ?sel)) = Some 42"
    by (simp add: attemptsInOrder_def)
  have b: "firstSuccessfulBuild 1 0 (attemptsInOrder [''VP8'', ''H264''] (videoEncoders ?sel)) = Some 42"
    by (simp add: attemptsInOrder_def)
  from a selectVideoCodec_first_working
    [where sel = ?sel and wantCodecs = "[''H264'', ''VP8'']" and reader = 1 and p = 0]
  have 1: "selectVideoCodec ?sel [''H264'', ''VP8''] (Inr 0) 1 = Inr (Some 42)"
    by blast
  from b selectVideoCodec_first_working
    [where sel = ?sel and wantCodecs = "[''VP8'', ''H264'']" and reader = 1 and p = 0]
  have 2: "selectVideoCodec ?sel [''VP8'', ''H264''] (Inr 0) 1 = Inr (Some 42)"
    by blast
  have c: "firstSuccessfulBuild 1 0 (attemptsInOrder [''H264'', ''VP9''] (videoEncoders ?sel)) = None"
    by (simp add: attemptsInOrder_def)
  from c selectVideoCodec_first_working
    [where sel = ?sel and wantCodecs = "[''H264'', ''VP9'']" and reader = 1 and p = 0]
  have 3: "\<exists>msg. selectVideoCodec ?sel [''H264'', ''VP9''] (Inr 0) 1 = Inl (ErrorString msg)"
    by blast
  from 1 2 3 show ?thesis by blast
qed

text \<open>
  Claim C6, at two failing inputs. The claim asks for exactly one entry for each attempted
  build, with that attempt's reason. With VP8 wanted and the builders H264, VP8 (failing),
  the code records an entry for H264, which was never attempted, carrying the nil error.
  With VP8 and H264 wanted and both builders failing, it records four entries for two
  attempts, two of them with the stale error of an earlier attempt.
\<close>

theorem selectVideoCodec_errReasons_at_failing_input:
  "selectVideoCodec \<lparr>videoEncoders = [\<lparr>RTPCodecName = ''H264'', BuildVideoEncoder = (\<lambda>r p. Inl (ErrorString ''no h264''))\<rparr>, \<lparr>RTPCodecName = ''VP8'', BuildVideoEncoder = (\<lambda>r p. Inl (ErrorString ''no vp8''))\<rparr> :: nat VideoEncoderBuilder]\<rparr> [''VP8''] (Inr 0) 1
     = Inl (ErrorString (strings_Join [''H264: %!s(<nil>)'', ''VP8: no vp8''] (newline @ newline)))
   \<and> failedAttempts 1 0 (attemptsInOrder [''VP8''] [\<lparr>RTPCodecName = ''H264'', BuildVideoEncoder = (\<lambda>r p. Inl (ErrorString ''no h264''))\<rparr>, \<lparr>RTPCodecName = ''VP8'', BuildVideoEncoder = (\<lambda>r p. Inl (ErrorString ''no vp8''))\<rparr> :: nat VideoEncoderBuilder])
     = [''VP8: no vp8'']
   \<and> selectVideoCodec \<lparr>videoEncoders = [\<lparr>RTPCodecName = ''VP8'', BuildVideoEncoder = (\<lambda>r p. Inl (ErrorString ''no vp8''))\<rparr>, \<lparr>RTPCodecName = ''H264'', BuildVideoEncoder = (\<lambda>r p. Inl (ErrorString ''no h264''))\<rparr> :: nat VideoEncoderBuilder]\<rparr>
       [''VP8'', ''H264''] (Inr 0) 1
     = Inl (ErrorString (strings_Join
         [''VP8: no vp8'', ''H264: no vp8'', ''VP8: no vp8'', ''H264: no h264''] (newline @ newline)))
   \<and> failedAttempts 1 0 (attemptsInOrder [''VP8'', ''H264''] [\<lparr>RTPCodecName = ''VP8'', BuildVideoEncoder = (\<lambda>r p. Inl (ErrorString ''no vp8''))\<rparr>, \<lparr>RTPCodecName = ''H264'', BuildVideoEncoder = (\<lambda>r p. Inl (ErrorString ''no h264''))\<rparr> :: nat VideoEncoderBuilder])
     = [''VP8: no vp8'', ''H264: no h264'']"
  by (simp add: selectVideoCodec_def attemptsInOrder_def fmtReason_def fmtError_def)

section \<open>Drain loop: proofs\<close>





section \<open>Bind and unbind: evaluation\<close>

lemma activeTracks_onError: "activeTracks (onError e track) = activeTracks track"
  by (simp add: onError_def endOnce_Do_def callHandler_def Let_def split: option.splits)

lemma VideoTrack_Bind_probe_failure:
  assumes "probeRead (Broadcaster track) = Inl e"
  shows "VideoTrack_Bind GetRegisteredRTPCodecs ctx track
           = (Some e, track\<lparr>base := onError e (base track)\<rparr>)"
  using assms
  by (simp add: VideoTrack_Bind_def wrappedReader_Read_def selectVideoCodec_def Let_def)

lemma VideoTrack_Bind_activeTracks:
  "activeTracks (base (snd (VideoTrack_Bind GetRegisteredRTPCodecs ctx track)))
     = activeTracks (base track)"
  by (simp add: VideoTrack_Bind_def wrappedReader_Read_def Let_def activeTracks_onError
      split: sum.splits prod.splits)

text \<open>
  Claim C9, at a failing input. A new video track whose selector has a working VP8 builder
  is bound to peer connection 5, on which VP8 is registered. \<open>Bind\<close> succeeds, and the
  destination is not in the track's active bindings afterwards: neither \<open>VideoTrack_Bind\<close> nor
  \<open>bind\<close> writes \<open>activeTracks\<close>.
\<close>

theorem Bind_leaves_activeTracks_at_failing_input:
  "fst (VideoTrack_Bind (\<lambda>pc. [''VP8'']) \<lparr>PeerConnection = 5\<rparr>
         \<lparr>base = newBaseTrack 0 VideoInput \<lparr>videoEncoders = [\<lparr>RTPCodecName = ''VP8'', BuildVideoEncoder = (\<lambda>r p. Inr 42)\<rparr> :: nat VideoEncoderBuilder]\<rparr>,
          Broadcaster = \<lparr>probeRead = Inr 0, rawReader = 1\<rparr>\<rparr>) = None
   \<and> activeTracks (base (snd (VideoTrack_Bind (\<lambda>pc. [''VP8'']) \<lparr>PeerConnection = 5\<rparr>
         \<lparr>base = newBaseTrack 0 VideoInput \<lparr>videoEncoders = [\<lparr>RTPCodecName = ''VP8'', BuildVideoEncoder = (\<lambda>r p. Inr 42)\<rparr> :: nat VideoEncoderBuilder]\<rparr>,
          Broadcaster = \<lparr>probeRead = Inr 0, rawReader = 1\<rparr>\<rparr>))) 5 = None
   \<and> fst (bind \<lparr>PeerConnection = 5\<rparr> (Some 42) ''VP8''
         (newBaseTrack 0 VideoInput \<lparr>videoEncoders = [\<lparr>RTPCodecName = ''VP8'', BuildVideoEncoder = (\<lambda>r p. Inr 42)\<rparr> :: nat VideoEncoderBuilder]\<rparr>)) = None
   \<and> activeTracks (snd (bind \<lparr>PeerConnection = 5\<rparr> (Some 42) ''VP8''
         (newBaseTrack 0 VideoInput \<lparr>videoEncoders = [\<lparr>RTPCodecName = ''VP8'', BuildVideoEncoder = (\<lambda>r p. Inr 42)\<rparr> :: nat VideoEncoderBuilder]\<rparr>))) 5 = None"
  by (simp add: VideoTrack_Bind_def wrappedReader_Read_def bind_def selectVideoCodec_def
      newBaseTrack_def Let_def)

section \<open>Selection: the query of the drivers\<close>

lemma set_mapAssign:
  "(\<forall>v'. (d, v') \<in> set m \<longrightarrow> v' = v) \<Longrightarrow> set (mapAssign d v m) = insert (d, v) (set m)"
  by (induction m) (auto split: if_splits)

lemma set_mapAssign_props:
  assumes "\<forall>(d', v')\<in>set m. v' = P d'"
  shows "set (mapAssign d (P d) m) = insert (d, P d) (set m)"
proof (rule set_mapAssign)
  show "\<forall>v'. (d, v') \<in> set m \<longrightarrow> v' = P d"
    using assms by auto
qed

lemma queryInv_start: "queryInv w [] [] [] w"
  by (simp add: queryInv_def)

lemma queryLoop_inv:
  assumes "queryInv w needToClose opened m wc"
    and "queryLoop ds m needToClose wc = (m', needToClose', w1)"
  shows "\<exists>opened'. queryInv w needToClose' opened' m' w1
     \<and> set opened' = set opened \<union> {d \<in> set ds. status (drv w d) = StateClosed}
     \<and> set needToClose' = set needToClose \<union>
          {d \<in> set ds. status (drv w d) = StateClosed \<and> openErr (drv w d) = None}
     \<and> set m' = set m \<union>
          {(d, Properties (drv w d)) | d. d \<in> set ds \<and>
             (status (drv w d) \<noteq> StateClosed \<or> openErr (drv w d) = None)}"
  using assms
proof (induction ds arbitrary: m needToClose opened wc)
  case Nil
  then show ?case by auto
next
  case (Cons d ds)
  note inv = Cons.prems(1)
  have view: "drv wc d = (if d \<in> set needToClose then (drv w d)\<lparr>status := StateOpened\<rparr> else drv w d)"
    using inv by (simp add: queryInv_def)
  have props: "\<forall>(d', v')\<in>set m. v' = Properties (drv w d')"
    using inv by (simp add: queryInv_def)
  have Pd: "Properties (drv wc d) = Properties (drv w d)"
    using view by simp
  show ?case
  proof (cases "status (drv wc d) = StateClosed")
    case False
    then have notclosed: "status (drv w d) \<noteq> StateClosed \<or> openErr (drv w d) = None"
      and inopened: "status (drv w d) = StateClosed \<longrightarrow> d \<in> set opened \<and> d \<in> set needToClose"
      using view inv by (auto simp: queryInv_def split: if_splits)
    have inv': "queryInv w needToClose opened (mapAssign d (Properties (drv w d)) m) wc"
      using inv set_mapAssign_props [OF props, of d]
      by (auto simp: queryInv_def)
    from False Cons.prems(2) Pd
    have "queryLoop ds (mapAssign d (Properties (drv w d)) m) needToClose wc = (m', needToClose', w1)"
      by simp
    from Cons.IH [OF inv' this] obtain opened' where
      o: "queryInv w needToClose' opened' m' w1"
         "set opened' = set opened \<union> {d \<in> set ds. status (drv w d) = StateClosed}"
         "set needToClose' = set needToClose \<union>
            {d \<in> set ds. status (drv w d) = StateClosed \<and> openErr (drv w d) = None}"
         "set m' = set (mapAssign d (Properties (drv w d)) m) \<union>
            {(d, Properties (drv w d)) | d. d \<in> set ds \<and>
               (status (drv w d) \<noteq> StateClosed \<or> openErr (drv w d) = None)}"
      by blast
    have "set m' = set m \<union>
            {(d', Properties (drv w d')) | d'. d' \<in> set (d # ds) \<and>
               (status (drv w d') \<noteq> StateClosed \<or> openErr (drv w d') = None)}"
      using o(4) notclosed set_mapAssign_props [OF props, of d] by auto
    with o(1,2,3) notclosed inopened show ?thesis
      by (intro exI [of _ opened']) auto
  next
    case True
    then have dn: "d \<notin> set needToClose" and closed: "status (drv w d) = StateClosed"
      using view by (auto split: if_splits)
    then have same: "drv wc d = drv w d"
      using view by simp
    show ?thesis
    proof (cases "openErr (drv w d)")
      case (Some e)
      have inv': "queryInv w needToClose (opened @ [d]) m (logCall (OpenCall d) wc)"
        using inv by (auto simp: queryInv_def logCall_def)
      from True Some same Cons.prems(2)
      have "queryLoop ds m needToClose (logCall (OpenCall d) wc) = (m', needToClose', w1)"
        by (simp add: Open_def)
      from Cons.IH [OF inv' this] obtain opened' where
        o: "queryInv w needToClose' opened' m' w1"
           "set opened' = set (opened @ [d]) \<union> {d \<in> set ds. status (drv w d) = StateClosed}"
           "set needToClose' = set needToClose \<union>
              {d \<in> set ds. status (drv w d) = StateClosed \<and> openErr (drv w d) = None}"
           "set m' = set m \<union>
              {(d, Properties (drv w d)) | d. d \<in> set ds \<and>
                 (status (drv w d) \<noteq> StateClosed \<or> openErr (drv w d) = None)}"
        by blast
      with closed Some show ?thesis
        by (intro exI [of _ opened']) auto
    next
      case None
      let ?w' = "setStatus d StateOpened (logCall (OpenCall d) wc)"
      have inv': "queryInv w (needToClose @ [d]) (opened @ [d])
                    (mapAssign d (Properties (drv w d)) m) ?w'"
        using inv closed dn None set_mapAssign_props [OF props, of d]
        by (auto simp: queryInv_def logCall_def setStatus_def)
      have "Properties (drv ?w' d) = Properties (drv w d)"
        using same by (simp add: setStatus_def logCall_def)
      with True None same Cons.prems(2)
      have "queryLoop ds (mapAssign d (Properties (drv w d)) m) (needToClose @ [d]) ?w'
              = (m', needToClose', w1)"
        by (simp add: Open_def)
      from Cons.IH [OF inv' this] obtain opened' where
        o: "queryInv w needToClose' opened' m' w1"
           "set opened' = set (opened @ [d]) \<union> {d \<in> set ds. status (drv w d) = StateClosed}"
           "set needToClose' = set (needToClose @ [d]) \<union>
              {d \<in> set ds. status (drv w d) = StateClosed \<and> openErr (drv w d) = None}"
           "set m' = set (mapAssign d (Properties (drv w d)) m) \<union>
              {(d, Properties (drv w d)) | d. d \<in> set ds \<and>
                 (status (drv w d) \<noteq> StateClosed \<or> openErr (drv w d) = None)}"
        by blast
      have "set m' = set m \<union>
            {(d', Properties (drv w d')) | d'. d' \<in> set (d # ds) \<and>
               (status (drv w d') \<noteq> StateClosed \<or> openErr (drv w d') = None)}"
        using o(4) None set_mapAssign_props [OF props, of d] by auto
      with o(1,2,3) closed None show ?thesis
        by (intro exI [of _ opened']) auto
    qed
  qed
qed

lemma fold_Close:
  "drv (fold Close cs w) d = (if d \<in> set cs then (drv w d)\<lparr>status := StateClosed\<rparr> else drv w d)
   \<and> registered (fold Close cs w) = registered w
   \<and> tracks (fold Close cs w) = tracks w
   \<and> driverCalls (fold Close cs w) = driverCalls w @ map CloseCall cs"
  by (induction cs arbitrary: w) (auto simp: Close_def setStatus_def logCall_def)

lemma queryDriverProperties_effect:
  assumes "queryDriverProperties f w = (m, w')"
  shows "drv w' = drv w \<and> registered w' = registered w \<and> tracks w' = tracks w
     \<and> (\<exists>opened closed.
          driverCalls w' = driverCalls w @ map OpenCall opened @ map CloseCall closed
          \<and> set opened = {d \<in> set (Query f w). status (drv w d) = StateClosed}
          \<and> set closed = {d \<in> set (Query f w). status (drv w d) = StateClosed
                               \<and> openErr (drv w d) = None})
     \<and> set m = {(d, Properties (drv w d)) | d. d \<in> set (queried f w)}"
proof -
  obtain m1 needToClose w1 where q: "queryLoop (Query f w) [] [] w = (m1, needToClose, w1)"
    by (cases "queryLoop (Query f w) [] [] w") auto
  with assms have m: "m = m1" and w': "w' = fold Close needToClose w1"
    by (auto simp: queryDriverProperties_def)
  from queryLoop_inv [OF queryInv_start q] obtain opened where
    inv: "queryInv w needToClose opened m1 w1"
    and o: "set opened = {d \<in> set (Query f w). status (drv w d) = StateClosed}"
    and c: "set needToClose = {d \<in> set (Query f w). status (drv w d) = StateClosed
                               \<and> openErr (drv w d) = None}"
    and ms: "set m1 = {(d, Properties (drv w d)) | d. d \<in> set (Query f w) \<and>
             (status (drv w d) \<noteq> StateClosed \<or> openErr (drv w d) = None)}"
    by auto
  have "drv w' d = drv w d" for d
    using inv w' fold_Close [of needToClose w1 d]
    by (auto simp: queryInv_def)
  then have 1: "drv w' = drv w" by (rule ext)
  have 2: "registered w' = registered w \<and> tracks w' = tracks w"
    using inv w' fold_Close [of needToClose w1] by (simp add: queryInv_def)
  have 3: "driverCalls w' = driverCalls w @ map OpenCall opened @ map CloseCall needToClose"
    using inv w' fold_Close [of needToClose w1] by (simp add: queryInv_def)
  have 4: "set m = {(d, Properties (drv w d)) | d. d \<in> set (queried f w)}"
    using ms m by (auto simp: queried_def)
  from 1 2 3 4 o c show ?thesis by blast
qed


text \<open>
  Claim C4. After a selection call every driver is in the state it was in before the call.
  The calls made on drivers are: \<open>Open\<close> on the drivers of the query that were closed,
  then \<open>Close\<close> on those of them that opened. So a driver that was closed and was opened
  to read its properties is closed again before the call returns, and a driver that was
  open before the call is neither opened nor closed by it.
\<close>

theorem selection_restores_driver_state:
  assumes "selectBestDriver E f constraints w = (res, w')"
  shows "(\<forall>d. drv w' d = drv w d)
     \<and> (\<exists>opened closed.
          driverCalls w' = driverCalls w @ map OpenCall opened @ map CloseCall closed
          \<and> set opened = {d \<in> set (Query f w). status (drv w d) = StateClosed}
          \<and> set closed = {d \<in> set (Query f w). status (drv w d) = StateClosed
                               \<and> openErr (drv w d) = None})
     \<and> (\<forall>d. status (drv w d) \<noteq> StateClosed \<longrightarrow>
          OpenCall d \<notin> set (drop (length (driverCalls w)) (driverCalls w'))
          \<and> CloseCall d \<notin> set (drop (length (driverCalls w)) (driverCalls w')))"
proof -
  obtain m w1 where q: "queryDriverProperties f w = (m, w1)"
    by (cases "queryDriverProperties f w") auto
  with assms have "w' = w1"
    by (auto simp: selectBestDriver_def Let_def split: option.splits)
  with queryDriverProperties_effect [OF q] obtain opened closed where
    1: "drv w' = drv w"
    and 2: "driverCalls w' = driverCalls w @ map OpenCall opened @ map CloseCall closed"
    and 3: "set opened = {d \<in> set (Query f w). status (drv w d) = StateClosed}"
    and 4: "set closed = {d \<in> set (Query f w). status (drv w d) = StateClosed
                               \<and> openErr (drv w d) = None}"
    by auto
  have 5: "OpenCall d \<notin> set (drop (length (driverCalls w)) (driverCalls w'))
          \<and> CloseCall d \<notin> set (drop (length (driverCalls w)) (driverCalls w'))"
    if "status (drv w d) \<noteq> StateClosed" for d
    using that 2 3 4 by auto
  from 1 2 3 4 5 show ?thesis by auto
qed

theorem selection_restores_driver_state_witness:
  "status (drv (snd (selectBestDriver exEnv FilterVideoRecorder (exConstraints 1280 False) exWorld)) 0)
     = StateClosed
   \<and> status (drv (snd (selectBestDriver exEnv FilterVideoRecorder (exConstraints 1280 False) exWorld)) 1)
     = StateOpened
   \<and> driverCalls (snd (selectBestDriver exEnv FilterVideoRecorder (exConstraints 1280 False) exWorld))
     = [OpenCall 0, OpenCall 2, OpenCall 4, CloseCall 0, CloseCall 4]
   \<and> CloseCall 1 \<notin> set (driverCalls
        (snd (selectBestDriver exEnv FilterVideoRecorder (exConstraints 1280 False) exWorld)))"
proof -
  let ?r = "selectBestDriver exEnv FilterVideoRecorder (exConstraints 1280 False) exWorld"
  note inst = selection_restores_driver_state [OF prod.collapse [symmetric], of exEnv
      FilterVideoRecorder "exConstraints 1280 False" exWorld]
  from inst have "\<forall>d. drv (snd ?r) d = drv exWorld d"
    by blast
  then have 1: "status (drv (snd ?r) 0) = StateClosed \<and> status (drv (snd ?r) 1) = StateOpened"
    by (simp add: exWorld_def exDriver_def)
  have 2: "driverCalls (snd ?r) = [OpenCall 0, OpenCall 2, OpenCall 4, CloseCall 0, CloseCall 4]"
    by (simp add: ex_defs driver_defs select_defs Let_def)
  have open1: "status (drv exWorld 1) \<noteq> StateClosed"
    by (simp add: exWorld_def exDriver_def)
  with inst have "CloseCall 1 \<notin> set (drop (length (driverCalls exWorld)) (driverCalls (snd ?r)))"
    by blast
  then have 3: "CloseCall 1 \<notin> set (driverCalls (snd ?r))"
    by (simp add: exWorld_def)
  from 1 2 3 show ?thesis by simp
qed

section \<open>Selection: the minimum and the failure\<close>

lemma float64_less_trans: "float64_less a b \<Longrightarrow> float64_less b c \<Longrightarrow> float64_less a c"
  by (cases a; cases b; cases c) auto

lemma float64_less_le_trans: "float64_less a b \<Longrightarrow> float64_le b c \<Longrightarrow> float64_less a c"
  by (cases a; cases b; cases c) auto

lemma float64_not_less_le:
  "float64_less a PosInf \<Longrightarrow> float64_less b PosInf \<Longrightarrow> \<not> float64_less a b \<Longrightarrow> float64_le b a"
  by (cases a; cases b) auto

lemma bestInv_step:
  assumes "bestInv E mc w seen b"
  shows "bestInv E mc w (seen @ [(d, p)])
           (case FitnessDistance E mc p of
              (fitnessDist, ok) \<Rightarrow>
                if \<not> ok then b
                else
                  (let dist = float64_sub (round64 E) fitnessDist (round64 E (Priority (drv w d)))
                   in if float64_less dist (minFitnessDist b) then
                        \<lparr>minFitnessDist = dist, bestDriver = Some d, bestProp = p\<rparr>
                      else b))"
proof (cases "FitnessDistance E mc p")
  case (Pair fitnessDist ok)
  let ?sc = "score E mc w (d, p)"
  have sc: "float64_sub (round64 E) fitnessDist (round64 E (Priority (drv w d))) = ?sc"
    using Pair by (simp add: score_def)
  show ?thesis
  proof (cases ok)
    case False
    then have "\<not> candidate E mc w (d, p)"
      using Pair by (simp add: candidate_def satisfies_def)
    with Pair False assms show ?thesis
      by (simp add: bestInv_def)
  next
    case True
    then have cand: "candidate E mc w (d, p) \<longleftrightarrow> float64_less ?sc PosInf"
      using Pair by (simp add: candidate_def satisfies_def)
    from assms consider
      (none) "filter (candidate E mc w) seen = []" "minFitnessDist b = PosInf" "bestDriver b = None"
      | (some) pre best post where
        "filter (candidate E mc w) seen = pre @ best # post"
        "\<forall>x\<in>set pre. float64_less (score E mc w best) (score E mc w x)"
        "\<forall>x\<in>set post. float64_le (score E mc w best) (score E mc w x)"
        "minFitnessDist b = score E mc w best"
        "bestDriver b = Some (fst best)" "bestProp b = snd best"
      unfolding bestInv_def by auto
    then show ?thesis
    proof cases
      case none
      show ?thesis
      proof (cases "float64_less ?sc PosInf")
        case less: True
        have "\<exists>pre best post.
          filter (candidate E mc w) (seen @ [(d, p)]) = pre @ best # post \<and>
          (\<forall>x\<in>set pre. float64_less (score E mc w best) (score E mc w x)) \<and>
          (\<forall>x\<in>set post. float64_le (score E mc w best) (score E mc w x)) \<and>
          ?sc = score E mc w best \<and> Some d = Some (fst best) \<and> p = snd best"
          using none cand less
          by (intro exI [of _ "[]"] exI [of _ "(d, p)"]) simp
        with Pair True none less sc show ?thesis
          by (simp add: bestInv_def)
      next
        case notless: False
        with Pair True none cand sc show ?thesis
          by (simp add: bestInv_def)
      qed
    next
      case some
      have "best \<in> set (filter (candidate E mc w) seen)"
        using some(1) by simp
      then have bestc: "float64_less (score E mc w best) PosInf"
        by (simp add: candidate_def)
      show ?thesis
      proof (cases "float64_less ?sc (score E mc w best)")
        case less: True
        have c: "candidate E mc w (d, p)"
          using cand float64_less_trans [OF less bestc] by simp
        have pre: "\<forall>x\<in>set (pre @ best # post). float64_less ?sc (score E mc w x)"
        proof
          fix x
          assume "x \<in> set (pre @ best # post)"
          then consider "x \<in> set pre" | "x = best" | "x \<in> set post"
            by auto
          then show "float64_less ?sc (score E mc w x)"
          proof cases
            case 1
            with some(2) have "float64_less (score E mc w best) (score E mc w x)"
              by blast
            from float64_less_trans [OF less this] show ?thesis .
          next
            case 2
            with less show ?thesis by simp
          next
            case 3
            with some(3) have "float64_le (score E mc w best) (score E mc w x)"
              by blast
            from float64_less_le_trans [OF less this] show ?thesis .
          qed
        qed
        have "\<exists>pre' best' post'.
          filter (candidate E mc w) (seen @ [(d, p)]) = pre' @ best' # post' \<and>
          (\<forall>x\<in>set pre'. float64_less (score E mc w best') (score E mc w x)) \<and>
          (\<forall>x\<in>set post'. float64_le (score E mc w best') (score E mc w x)) \<and>
          ?sc = score E mc w best' \<and> Some d = Some (fst best') \<and> p = snd best'"
          using some(1) c pre
          by (intro exI [of _ "pre @ best # post"] exI [of _ "(d, p)"] exI [of _ "[]"]) simp
        with Pair True some(4) less sc show ?thesis
          by (simp add: bestInv_def)
      next
        case notless: False
        show ?thesis
        proof (cases "candidate E mc w (d, p)")
          case c: True
          then have "float64_less ?sc PosInf"
            using cand by simp
          from float64_not_less_le [OF this bestc notless]
          have "float64_le (score E mc w best) ?sc" .
          then have "\<exists>pre' best' post'.
            filter (candidate E mc w) (seen @ [(d, p)]) = pre' @ best' # post' \<and>
            (\<forall>x\<in>set pre'. float64_less (score E mc w best') (score E mc w x)) \<and>
            (\<forall>x\<in>set post'. float64_le (score E mc w best') (score E mc w x)) \<and>
            minFitnessDist b = score E mc w best' \<and>
            bestDriver b = Some (fst best') \<and> bestProp b = snd best'"
            using some c
            by (intro exI [of _ pre] exI [of _ best] exI [of _ "post @ [(d, p)]"]) simp
          with Pair True some(4) notless sc show ?thesis
            by (simp add: bestInv_def)
        next
          case nc: False
          have "\<exists>pre' best' post'.
            filter (candidate E mc w) (seen @ [(d, p)]) = pre' @ best' # post' \<and>
            (\<forall>x\<in>set pre'. float64_less (score E mc w best') (score E mc w x)) \<and>
            (\<forall>x\<in>set post'. float64_le (score E mc w best') (score E mc w x)) \<and>
            minFitnessDist b = score E mc w best' \<and>
            bestDriver b = Some (fst best') \<and> bestProp b = snd best'"
            using some nc
            by (intro exI [of _ pre] exI [of _ best] exI [of _ post]) simp
          with Pair True some(4) notless sc show ?thesis
            by (simp add: bestInv_def)
        qed
      qed
    qed
  qed
qed

lemma propLoop_inv:
  "bestInv E mc w seen b \<Longrightarrow>
   bestInv E mc w (seen @ map (Pair d) props)
     (propLoop E mc d (round64 E (Priority (drv w d))) props b)"
proof (induction props arbitrary: seen b)
  case Nil
  then show ?case by simp
next
  case (Cons p ps)
  let ?b' = "case FitnessDistance E mc p of
              (fitnessDist, ok) \<Rightarrow>
                if \<not> ok then b
                else
                  (let dist = float64_sub (round64 E) fitnessDist (round64 E (Priority (drv w d)))
                   in if float64_less dist (minFitnessDist b) then
                        \<lparr>minFitnessDist = dist, bestDriver = Some d, bestProp = p\<rparr>
                      else b)"
  have eq: "propLoop E mc d (round64 E (Priority (drv w d))) (p # ps) b
          = propLoop E mc d (round64 E (Priority (drv w d))) ps ?b'"
    by (simp add: Let_def split: prod.splits)
  from Cons.IH [OF bestInv_step [OF Cons.prems, of d p]]
  have "bestInv E mc w ((seen @ [(d, p)]) @ map (Pair d) ps)
          (propLoop E mc d (round64 E (Priority (drv w d))) ps ?b')" .
  with eq show ?case by simp
qed

lemma driverLoop_inv:
  "bestInv E mc w seen b \<Longrightarrow>
   bestInv E mc w (seen @ concat (map (\<lambda>(d, props). map (Pair d) props) m)) (driverLoop E mc w m b)"
proof (induction m arbitrary: seen b)
  case Nil
  then show ?case by simp
next
  case (Cons entry rest)
  obtain d props where entry: "entry = (d, props)" by (cases entry)
  from Cons.IH [OF propLoop_inv [OF Cons.prems, of d props]] entry
  show ?case by simp
qed

lemma bestInv_init:
  "bestInv E mc w [] \<lparr>minFitnessDist = PosInf, bestDriver = None, bestProp = emptyMedia E\<rparr>"
  by (simp add: bestInv_def)

lemma driverLoop_result:
  "bestInv E mc w (encountered E m)
     (driverLoop E mc w (rangeBest E m)
        \<lparr>minFitnessDist = PosInf, bestDriver = None, bestProp = emptyMedia E\<rparr>)"
  using driverLoop_inv [OF bestInv_init, of E mc w "rangeBest E m"]
  by (simp add: encountered_def)

lemma score_world: "drv w' = drv w \<Longrightarrow> score E mc w' = score E mc w"
  by (rule ext) (simp add: score_def)

lemma candidate_world: "drv w' = drv w \<Longrightarrow> candidate E mc w' = candidate E mc w"
  by (rule ext) (simp add: candidate_def score_def)

lemma bestInv_world:
  assumes "drv w' = drv w"
  shows "bestInv E mc w' seen b = bestInv E mc w seen b"
  unfolding bestInv_def score_world [OF assms] candidate_world [OF assms] ..

lemma set_encountered:
  assumes "set (rangeBest E m) = set m"
    and "set m = {(d, Properties (drv w d)) | d. d \<in> set (queried f w)}"
  shows "set (encountered E m) = {(d, p). d \<in> set (queried f w) \<and> p \<in> set (Properties (drv w d))}"
  using assms by (auto simp: encountered_def)

lemma sublist_strings_Join: "x \<in> set xs \<Longrightarrow> sublist x (strings_Join xs sep)"
proof (induction xs sep rule: strings_Join.induct)
  case (1 sep)
  then show ?case by simp
next
  case (2 y sep)
  then show ?case by simp
next
  case (3 y z zs sep)
  show ?case
  proof (cases "x = y")
    case True
    then show ?thesis by simp
  next
    case False
    with 3 have "sublist x (strings_Join (z # zs) sep)" by simp
    then obtain ps ss where "strings_Join (z # zs) sep = ps @ x @ ss"
      by (auto simp: sublist_def)
    then have "strings_Join (y # z # zs) sep = (y @ sep @ ps) @ x @ ss"
      by simp
    then show ?thesis
      unfolding sublist_def by blast
  qed
qed

lemma sublist_between: "sublist x y \<Longrightarrow> sublist x (a @ y @ b)"
proof -
  assume "sublist x y"
  then obtain ps ss where "y = ps @ x @ ss"
    by (auto simp: sublist_def)
  then have "a @ y @ b = (a @ ps) @ x @ (ss @ b)"
    by simp
  then show ?thesis
    unfolding sublist_def by blast
qed

lemma notFoundMessage_found:
  assumes "x \<in> set found"
  shows "sublist x (notFoundMessage E found constraints)"
proof -
  let ?a = "Error errNotFound @ '':'' @ newline @
     ''============ Found Properties ============'' @ newline @ newline"
  let ?b = "newline @ newline @
     ''=============== Constraints =============='' @ newline @ newline @
     ConstraintsString E constraints @ newline"
  have eq: "notFoundMessage E found constraints = ?a @ strings_Join found (newline @ newline) @ ?b"
    by (simp add: notFoundMessage_def)
  show ?thesis
    unfolding eq by (rule sublist_between [OF sublist_strings_Join [OF assms]])
qed

lemma notFoundMessage_constraints:
  "sublist (ConstraintsString E constraints) (notFoundMessage E found constraints)"
proof -
  let ?a = "Error errNotFound @ '':'' @ newline @
     ''============ Found Properties ============'' @ newline @ newline @
     strings_Join found (newline @ newline) @ newline @ newline @
     ''=============== Constraints =============='' @ newline @ newline"
  have "notFoundMessage E found constraints = ?a @ ConstraintsString E constraints @ newline"
    by (simp add: notFoundMessage_def)
  then show ?thesis
    unfolding sublist_def by blast
qed




text \<open>
  Claim C8. When no pair of a queried driver and one of its properties satisfies every
  required attribute, selection fails with an error that wraps \<open>errNotFound\<close>, and the
  error's message contains the printed form of every property of every driver whose
  properties were read, and the printed form of the constraints.
\<close>

theorem selectBestDriver_NotFound:
  assumes q: "queryDriverProperties f w = (m, w')"
    and rangeB: "set (rangeBest E m) = set m"
    and rangeF: "set (rangeFound E m) = set m"
    and none: "\<forall>d\<in>set (queried f w). \<forall>p\<in>set (Properties (drv w d)).
                 \<not> satisfies E (MediaConstraints constraints) (d, p)"
  shows "\<exists>msg. selectBestDriver E f constraints w = (Inl (WrapError msg errNotFound), w')
     \<and> errors_Is (WrapError msg errNotFound) errNotFound
     \<and> (\<forall>d\<in>set (queried f w). \<forall>p\<in>set (Properties (drv w d)). sublist (MediaString E p) msg)
     \<and> sublist (ConstraintsString E constraints) msg"
proof -
  let ?mc = "MediaConstraints constraints"
  let ?b = "driverLoop E ?mc w' (rangeBest E m)
              \<lparr>minFitnessDist = PosInf, bestDriver = None, bestProp = emptyMedia E\<rparr>"
  let ?msg = "notFoundMessage E (foundProperties E m) constraints"
  from queryDriverProperties_effect [OF q]
  have drv: "drv w' = drv w"
    and m: "set m = {(d, Properties (drv w d)) | d. d \<in> set (queried f w)}"
    by auto
  have enc: "set (encountered E m) =
           {(d, p). d \<in> set (queried f w) \<and> p \<in> set (Properties (drv w d))}"
    by (rule set_encountered [OF rangeB m])
  with none have empty: "filter (candidate E ?mc w) (encountered E m) = []"
    by (auto simp: filter_empty_conv candidate_def)
  have "bestInv E ?mc w (encountered E m) ?b"
    using driverLoop_result [of E ?mc w' m] by (simp only: bestInv_world [OF drv])
  with empty have "bestDriver ?b = None"
    by (simp add: bestInv_def)
  with q have 1: "selectBestDriver E f constraints w = (Inl (WrapError ?msg errNotFound), w')"
    by (simp add: selectBestDriver_def Let_def)
  have 2: "errors_Is (WrapError ?msg errNotFound) errNotFound"
    by (simp add: errNotFound_def)
  have 3: "sublist (MediaString E p) ?msg"
    if "d \<in> set (queried f w)" "p \<in> set (Properties (drv w d))" for d p
  proof -
    from that m have "(d, Properties (drv w d)) \<in> set (rangeFound E m)"
      using rangeF by auto
    with that(2) have "MediaString E p \<in> set (foundProperties E m)"
      by (force simp: foundProperties_def)
    then show ?thesis by (rule notFoundMessage_found)
  qed
  have 4: "sublist (ConstraintsString E constraints) ?msg"
    by (rule notFoundMessage_constraints)
  from 1 2 3 4 show ?thesis by blast
qed

theorem selectBestDriver_NotFound_witness:
  "\<exists>msg. fst (selectBestDriver exEnv FilterVideoRecorder (exConstraints 1920 True) exWorld)
            = Inl (WrapError msg errNotFound)
     \<and> sublist ''640'' msg \<and> sublist ''1280'' msg \<and> sublist ''exact'' msg"
proof -
  let ?c = "exConstraints 1920 True"
  let ?q = "queryDriverProperties FilterVideoRecorder exWorld"
  have rangeB: "set (rangeBest exEnv (fst ?q)) = set (fst ?q)"
    by (simp add: exEnv_def)
  have rangeF: "set (rangeFound exEnv (fst ?q)) = set (fst ?q)"
    by (simp add: exEnv_def)
  have none: "\<forall>d\<in>set (queried FilterVideoRecorder exWorld). \<forall>p\<in>set (Properties (drv exWorld d)).
                 \<not> satisfies exEnv (MediaConstraints ?c) (d, p)"
    by (simp add: queried_def satisfies_def ex_defs driver_defs)
  have q0: "0 \<in> set (queried FilterVideoRecorder exWorld)"
    by (simp add: queried_def ex_defs driver_defs)
  have p0: "640 \<in> set (Properties (drv exWorld 0))" "1280 \<in> set (Properties (drv exWorld 0))"
    by (simp_all add: ex_defs)
  from selectBestDriver_NotFound [OF prod.collapse [symmetric] rangeB rangeF none]
  obtain msg where
    r: "selectBestDriver exEnv FilterVideoRecorder ?c exWorld = (Inl (WrapError msg errNotFound), snd ?q)"
    and f: "\<forall>d\<in>set (queried FilterVideoRecorder exWorld). \<forall>p\<in>set (Properties (drv exWorld d)).
              sublist (MediaString exEnv p) msg"
    and c: "sublist (ConstraintsString exEnv ?c) msg"
    by blast
  from f q0 p0 have "sublist (MediaString exEnv 640) msg" "sublist (MediaString exEnv 1280) msg"
    by blast+
  then have 1: "sublist ''640'' msg" "sublist ''1280'' msg"
    by (simp_all add: exEnv_def)
  from c have 2: "sublist ''exact'' msg"
    by (simp add: exEnv_def exConstraints_def)
  from r 1 2 show ?thesis by auto
qed

section \<open>The entry points: cleaning up after a failure\<close>

lemma cleanTrackers_fold: "cleanTrackers trackers w = fold Close (map Source trackers) w"
  by (simp add: cleanTrackers_def fold_map Track_Close_def [abs_def] comp_def)

lemma cleanTrackers_effect:
  "tracks (cleanTrackers trackers w) = tracks w
   \<and> (\<forall>t\<in>set trackers. status (drv (cleanTrackers trackers w) (Source t)) = StateClosed)"
  using fold_Close [of "map Source trackers" w]
  by (auto simp: cleanTrackers_fold)

lemma Open_tracks: "Open d w = (r, w') \<Longrightarrow> tracks w' = tracks w"
  by (auto simp: Open_def setStatus_def logCall_def split: option.splits)

lemma selectBestDriver_tracks:
  assumes "selectBestDriver E f constraints w = (r, w')"
  shows "tracks w' = tracks w"
proof -
  obtain m w1 where q: "queryDriverProperties f w = (m, w1)"
    by (cases "queryDriverProperties f w") auto
  with assms have "w' = w1"
    by (auto simp: selectBestDriver_def Let_def split: option.splits)
  with queryDriverProperties_effect [OF q] show ?thesis by simp
qed

lemma newTrackFromDriver_tracks:
  assumes "newTrackFromDriver d constraints sel w = (r, w')"
  shows "case r of Ok t \<Rightarrow> tracks w' = tracks w @ [t] | Err e \<Rightarrow> tracks w' = tracks w
         | Panic e \<Rightarrow> tracks w' = tracks w"
proof -
  obtain oe w1 where o: "Open d w = (oe, w1)"
    by (cases "Open d w") auto
  note t1 = Open_tracks [OF o]
  show ?thesis
  proof (cases oe)
    case (Some e)
    with assms o t1 show ?thesis
      by (auto simp: newTrackFromDriver_def)
  next
    case None
    with assms o t1 show ?thesis
      by (auto simp: newTrackFromDriver_def newVideoTrackFromDriver_def
          newAudioTrackFromDriver_def newVideoTrackFromReader_def newAudioTrackFromReader_def Let_def
          split: if_splits sum.splits)
  qed
qed

lemma select_tracks:
  "createsAtMostOne (\<lambda>w. case selectBestDriver E f constraints w of
       (Inl e, w') \<Rightarrow> (Err e, w')
     | (Inr (d, c), w') \<Rightarrow> newTrackFromDriver d c sel w')"
  unfolding createsAtMostOne_def
proof (intro allI impI)
  fix w r w'
  assume a: "(case selectBestDriver E f constraints w of
       (Inl e, w') \<Rightarrow> (Err e, w')
     | (Inr (d, c), w') \<Rightarrow> newTrackFromDriver d c sel w') = (r, w')"
  obtain sr w1 where s: "selectBestDriver E f constraints w = (sr, w1)"
    by (cases "selectBestDriver E f constraints w") auto
  note t1 = selectBestDriver_tracks [OF s]
  show "case r of Ok t \<Rightarrow> tracks w' = tracks w @ [t] | Err e \<Rightarrow> tracks w' = tracks w
         | Panic e \<Rightarrow> tracks w' = tracks w"
  proof (cases sr)
    case (Inl e)
    with a s t1 show ?thesis by auto
  next
    case (Inr dc)
    obtain d c where dc: "dc = (d, c)" by (cases dc)
    with a s Inr have "newTrackFromDriver d c sel w1 = (r, w')"
      by simp
    from newTrackFromDriver_tracks [OF this] t1 show ?thesis
      by (simp split: result.splits)
  qed
qed

lemma selectInto_effect:
  assumes c: "createsAtMostOne (sel_fn constraints codec)"
    and s: "selectInto sel_fn constraints codec trackers w = (r, w')"
    and t: "tracks w = base_tracks @ trackers"
  shows "case r of
           Ok trackers' \<Rightarrow> tracks w' = base_tracks @ trackers'
         | Err e \<Rightarrow> tracks w' = base_tracks @ trackers
                    \<and> (\<forall>t\<in>set trackers. status (drv w' (Source t)) = StateClosed)
         | Panic e \<Rightarrow> True"
proof (cases "Enabled constraints")
  case False
  with s t show ?thesis by (auto simp: selectInto_def)
next
  case True
  obtain sr w1 where sr: "sel_fn constraints codec w = (sr, w1)"
    by (cases "sel_fn constraints codec w") auto
  from c sr have one: "case sr of Ok t \<Rightarrow> tracks w1 = tracks w @ [t] | Err e \<Rightarrow> tracks w1 = tracks w
         | Panic e \<Rightarrow> tracks w1 = tracks w"
    unfolding createsAtMostOne_def by blast
  show ?thesis
  proof (cases sr)
    case (Ok tracker)
    with True s sr one t show ?thesis by (auto simp: selectInto_def)
  next
    case (Err e)
    with True s sr have "r = Err e" "w' = cleanTrackers trackers w1"
      by (simp_all add: selectInto_def)
    with Err one t cleanTrackers_effect [of trackers w1] show ?thesis by simp
  next
    case (Panic e)
    with True s sr show ?thesis by (auto simp: selectInto_def)
  qed
qed

lemma finishStream_effect:
  assumes "finishStream E trackers w = (Err e, w')"
  shows "tracks w' = tracks w \<and> (\<forall>t\<in>set trackers. status (drv w' (Source t)) = StateClosed)"
  using assms cleanTrackers_effect [of trackers w]
  by (auto simp: finishStream_def split: sum.splits)

lemma GetUserMedia_effect:
  assumes "GetUserMedia E constraints w = (Err e, w')"
  shows "\<forall>t\<in>set (drop (length (tracks w)) (tracks w')). status (drv w' (Source t)) = StateClosed"
proof -
  let ?vc = "applyOption (Video constraints) (zeroConstraints E)"
  let ?ac = "applyOption (Audio constraints) (zeroConstraints E)"
  obtain r1 w1 where s1: "selectInto (selectVideo E) ?vc (Codec constraints) [] w = (r1, w1)"
    by (cases "selectInto (selectVideo E) ?vc (Codec constraints) [] w") auto
  have cv: "createsAtMostOne (selectVideo E ?vc (Codec constraints))"
    using select_tracks [where E = E and constraints = ?vc and sel = "Codec constraints"]
    by (simp add: selectVideo_def [abs_def] Let_def)
  have ca: "createsAtMostOne (selectAudio E ?ac (Codec constraints))"
    using select_tracks [where E = E and constraints = ?ac and sel = "Codec constraints"]
    by (simp add: selectAudio_def [abs_def] Let_def)
  note e1 = selectInto_effect [OF cv s1, of "tracks w"]
  show ?thesis
  proof (cases r1)
    case (Err e1)
    with assms s1 have "w' = w1" by (simp add: GetUserMedia_def Let_def)
    with e1 Err show ?thesis by simp
  next
    case (Panic e1)
    with assms s1 show ?thesis by (simp add: GetUserMedia_def Let_def)
  next
    case (Ok trackers)
    with e1 have t1: "tracks w1 = tracks w @ trackers" by simp
    obtain r2 w2 where s2: "selectInto (selectAudio E) ?ac (Codec constraints) trackers w1 = (r2, w2)"
      by (cases "selectInto (selectAudio E) ?ac (Codec constraints) trackers w1") auto
    note e2 = selectInto_effect [OF ca s2 t1]
    show ?thesis
    proof (cases r2)
      case (Err e2)
      with assms s1 Ok s2 have "w' = w2" by (simp add: GetUserMedia_def Let_def)
      with e2 Err show ?thesis by simp
    next
      case (Panic e2)
      with assms s1 Ok s2 show ?thesis by (simp add: GetUserMedia_def Let_def)
    next
      case (Ok trackers')
      with e2 have t2: "tracks w2 = tracks w @ trackers'" by simp
      from assms s1 \<open>r1 = Ok trackers\<close> s2 Ok have "finishStream E trackers' w2 = (Err e, w')"
        by (simp add: GetUserMedia_def Let_def)
      from finishStream_effect [OF this] t2 show ?thesis by simp
    qed
  qed
qed

lemma GetDisplayMedia_effect:
  assumes "GetDisplayMedia E constraints w = (Err e, w')"
  shows "\<forall>t\<in>set (drop (length (tracks w)) (tracks w')). status (drv w' (Source t)) = StateClosed"
proof -
  let ?vc = "applyOption (Video constraints) (zeroConstraints E)"
  obtain r1 w1 where s1: "selectInto (selectScreen E) ?vc (Codec constraints) [] w = (r1, w1)"
    by (cases "selectInto (selectScreen E) ?vc (Codec constraints) [] w") auto
  have cv: "createsAtMostOne (selectScreen E ?vc (Codec constraints))"
    using select_tracks [where E = E and constraints = ?vc and sel = "Codec constraints"]
    by (simp add: selectScreen_def [abs_def] Let_def)
  note e1 = selectInto_effect [OF cv s1, of "tracks w"]
  show ?thesis
  proof (cases r1)
    case (Err e1)
    with assms s1 have "w' = w1" by (simp add: GetDisplayMedia_def Let_def)
    with e1 Err show ?thesis by simp
  next
    case (Panic e1)
    with assms s1 show ?thesis by (simp add: GetDisplayMedia_def Let_def)
  next
    case (Ok trackers)
    with e1 have t1: "tracks w1 = tracks w @ trackers" by simp
    from assms s1 Ok have "finishStream E trackers w1 = (Err e, w')"
      by (simp add: GetDisplayMedia_def Let_def)
    from finishStream_effect [OF this] t1 show ?thesis by simp
  qed
qed

lemma ex_GetUserMedia:
  "fst (GetUserMedia exEnv exStream exWorld) = Err (ErrorString ''too many'')
   \<and> map Source (tracks (snd (GetUserMedia exEnv exStream exWorld))) = [0, 3]"
  by (simp add: ex_defs driver_defs select_defs entry_defs Let_def)

lemma ex_GetDisplayMedia:
  "fst (GetDisplayMedia exEnvRefusing exStream exWorld) = Err (ErrorString ''refused'')
   \<and> map Source (tracks (snd (GetDisplayMedia exEnvRefusing exStream exWorld))) = [4]"
  by (simp add: ex_defs driver_defs select_defs entry_defs Let_def)

text \<open>
  Claim C10. When \<open>GetUserMedia\<close> or \<open>GetDisplayMedia\<close> returns an error, every Track
  constructed during the call (the tracks the world gained) is closed on return: the
  driver that is its source has the status closed.
\<close>

theorem failed_call_closes_its_tracks:
  "(GetUserMedia E constraints w = (Err e, w') \<longrightarrow>
      (\<forall>t\<in>set (drop (length (tracks w)) (tracks w')). status (drv w' (Source t)) = StateClosed))
   \<and> (GetDisplayMedia E constraints w = (Err e, w') \<longrightarrow>
      (\<forall>t\<in>set (drop (length (tracks w)) (tracks w')). status (drv w' (Source t)) = StateClosed))"
  using GetUserMedia_effect GetDisplayMedia_effect by blast


theorem failed_call_closes_its_tracks_witness:
  "fst (GetUserMedia exEnv exStream exWorld) = Err (ErrorString ''too many'')
   \<and> map Source (tracks (snd (GetUserMedia exEnv exStream exWorld))) = [0, 3]
   \<and> status (drv (snd (GetUserMedia exEnv exStream exWorld)) 0) = StateClosed
   \<and> status (drv (snd (GetUserMedia exEnv exStream exWorld)) 3) = StateClosed
   \<and> fst (GetDisplayMedia exEnvRefusing exStream exWorld) = Err (ErrorString ''refused'')
   \<and> map Source (tracks (snd (GetDisplayMedia exEnvRefusing exStream exWorld))) = [4]
   \<and> status (drv (snd (GetDisplayMedia exEnvRefusing exStream exWorld)) 4) = StateClosed"
proof -
  let ?r = "GetUserMedia exEnv exStream exWorld"
  let ?s = "GetDisplayMedia exEnvRefusing exStream exWorld"
  have e: "fst ?r = Err (ErrorString ''too many'')"
    and t: "map Source (tracks (snd ?r)) = [0, 3]"
    using ex_GetUserMedia by simp_all
  from e have "?r = (Err (ErrorString ''too many''), snd ?r)"
    by (metis prod.collapse)
  with failed_call_closes_its_tracks [of exEnv exStream exWorld "ErrorString ''too many''" "snd ?r"]
  have "\<forall>t\<in>set (drop (length (tracks exWorld)) (tracks (snd ?r))).
          status (drv (snd ?r) (Source t)) = StateClosed"
    by blast
  then have "\<forall>d\<in>set (map Source (tracks (snd ?r))). status (drv (snd ?r) d) = StateClosed"
    by (simp add: exWorld_def)
  with t have 1: "status (drv (snd ?r) 0) = StateClosed \<and> status (drv (snd ?r) 3) = StateClosed"
    by simp
  have e': "fst ?s = Err (ErrorString ''refused'')"
    and t': "map Source (tracks (snd ?s)) = [4]"
    using ex_GetDisplayMedia by simp_all
  from e' have "?s = (Err (ErrorString ''refused''), snd ?s)"
    by (metis prod.collapse)
  with failed_call_closes_its_tracks
    [of exEnvRefusing exStream exWorld "ErrorString ''refused''" "snd ?s"]
  have "\<forall>t\<in>set (drop (length (tracks exWorld)) (tracks (snd ?s))).
          status (drv (snd ?s) (Source t)) = StateClosed"
    by blast
  then have "\<forall>d\<in>set (map Source (tracks (snd ?s))). status (drv (snd ?s) d) = StateClosed"
    by (simp add: exWorld_def)
  with t' have 2: "status (drv (snd ?s) 4) = StateClosed"
    by simp
  from e t 1 e' t' 2 show ?thesis by simp
qed

end
